theory Spec2Isabelle
  imports Complex_Main "HOL-Library.Sublist"
begin

section \<open>JavaScript strings\<close>

text \<open>
  A JavaScript string is a finite sequence of UTF-16 code units. A code unit is modelled
  as a natural number, so every string the page can deliver is covered (values above
  65535 never occur and do no harm). \<open>js\<close> reads an ASCII literal of the source
  as such a string.
\<close>

type_synonym jsstring = "nat list"

definition js :: "string \<Rightarrow> jsstring" where
  "js s = map of_char s"

text \<open>\<^verbatim>\<open>String.prototype.startsWith\<close> and \<^verbatim>\<open>String.prototype.includes\<close>:
  the receiver comes first, the search string second (\<open>includes\<close> is an Isabelle keyword, hence \<open>str_includes\<close>).\<close>

definition startsWith :: "jsstring \<Rightarrow> jsstring \<Rightarrow> bool" where
  "startsWith s search = prefix search s"

definition str_includes :: "jsstring \<Rightarrow> jsstring \<Rightarrow> bool" where
  "str_includes s search = sublist search s"

text \<open>
  \<^verbatim>\<open>String.prototype.trim\<close> removes leading and trailing WhiteSpace and
  LineTerminator code units: TAB, LF, VT, FF, CR, SP, NBSP, U+1680, U+2000 to U+200A,
  U+2028, U+2029, U+202F, U+205F, U+3000 and U+FEFF.
\<close>

definition isWhiteSpace :: "nat \<Rightarrow> bool" where
  "isWhiteSpace c =
     (c \<in> set [9, 10, 11, 12, 13, 32, 160, 5760, 8232, 8233, 8239, 8287, 12288, 65279]
      \<or> (8192 \<le> c \<and> c \<le> 8202))"

definition trim :: "jsstring \<Rightarrow> jsstring" where
  "trim s = rev (dropWhile isWhiteSpace (rev (dropWhile isWhiteSpace s)))"

text \<open>\<^verbatim>\<open>Array.prototype.join\<close> on an array of strings.\<close>

fun join :: "jsstring \<Rightarrow> jsstring list \<Rightarrow> jsstring" where
  "join sep [] = []"
| "join sep [x] = x"
| "join sep (x # y # ys) = x @ sep @ join sep (y # ys)"

section \<open>The regular expressions of \<^verbatim>\<open>isUIText\<close>\<close>

text \<open>
  The eight patterns use only anchors, ASCII literals, the classes \<^verbatim>\<open>[0-9]\<close> and
  \<^verbatim>\<open>[A-Z]\<close>, bounded repetition and alternation. Under the \<^verbatim>\<open>i\<close> flag (without
  \<^verbatim>\<open>u\<close>) a pattern character and an input code unit match when their canonical
  forms agree; the canonical form of an ASCII letter is its upper case, and no code unit
  from 128 on has an ASCII canonical form, so \<open>upcase\<close> decides the match for the
  ASCII literals used here.
\<close>

definition isDigit :: "nat \<Rightarrow> bool" where
  "isDigit c = (48 \<le> c \<and> c \<le> 57)"

definition isUpper :: "nat \<Rightarrow> bool" where
  "isUpper c = (65 \<le> c \<and> c \<le> 90)"

definition upcase :: "nat \<Rightarrow> nat" where
  "upcase c = (if 97 \<le> c \<and> c \<le> 122 then c - 32 else c)"

text \<open>\<^verbatim>\<open>/^lit/i\<close>: the input starts with the literal, case-insensitively.\<close>

definition ci_starts :: "string \<Rightarrow> jsstring \<Rightarrow> bool" where
  "ci_starts lit s = prefix (map upcase (js lit)) (map upcase s)"

text \<open>\<^verbatim>\<open>/^lit$/i\<close>: the input is the literal, case-insensitively (without the
  \<^verbatim>\<open>m\<close> flag \<^verbatim>\<open>$\<close> matches at the end of the input only).\<close>

definition ci_whole :: "string \<Rightarrow> jsstring \<Rightarrow> bool" where
  "ci_whole lit s = (map upcase s = map upcase (js lit))"

text \<open>\<^verbatim>\<open>/^[0-9]{1,2}:[0-9]{2}/\<close>: one or two digits, a colon, two digits, then anything.\<close>

fun rx_timestamp :: "jsstring \<Rightarrow> bool" where
  "rx_timestamp (a # b # c # d # e # rest) =
     ((isDigit a \<and> b = 58 \<and> isDigit c \<and> isDigit d)
      \<or> (isDigit a \<and> isDigit b \<and> c = 58 \<and> isDigit d \<and> isDigit e))"
| "rx_timestamp [a, b, c, d] = (isDigit a \<and> b = 58 \<and> isDigit c \<and> isDigit d)"
| "rx_timestamp s = False"

text \<open>\<^verbatim>\<open>/^[A-Z]{2,3}$/\<close>: two or three upper-case ASCII letters and nothing else.\<close>

definition rx_initials :: "jsstring \<Rightarrow> bool" where
  "rx_initials s = ((length s = 2 \<or> length s = 3) \<and> list_all isUpper s)"

text \<open>The array \<^verbatim>\<open>uiPatterns\<close>, in the source's order.\<close>

definition uiPatterns :: "(jsstring \<Rightarrow> bool) list" where
  "uiPatterns =
     [rx_timestamp,
      (\<lambda>s. ci_whole ''AM'' s \<or> ci_whole ''PM'' s),
      (\<lambda>s. ci_whole ''Today'' s \<or> ci_whole ''Yesterday'' s),
      (\<lambda>s. ci_starts ''Turn on'' s \<or> ci_starts ''Turn off'' s
           \<or> ci_starts ''Enable'' s \<or> ci_starts ''Disable'' s),
      (\<lambda>s. ci_starts ''Mute'' s \<or> ci_starts ''Unmute'' s \<or> ci_starts ''Share'' s
           \<or> ci_starts ''Stop'' s \<or> ci_starts ''Leave'' s \<or> ci_starts ''Join'' s),
      rx_initials,
      ci_starts ''Live captions'',
      (\<lambda>s. prefix (js ''...'') s)]"

text \<open>\<^verbatim>\<open>uiPatterns.some(pattern => pattern.test(text.trim()))\<close>\<close>

definition isUIText :: "jsstring \<Rightarrow> bool" where
  "isUIText text0 = list_ex (\<lambda>pattern. pattern (trim text0)) uiPatterns"

section \<open>The caption buffer of \<^verbatim>\<open>CaptionGrabber\<close>\<close>

text \<open>A buffer entry \<^verbatim>\<open>{text, time}\<close>; \<open>time\<close> is a \<^verbatim>\<open>Date.now()\<close> reading in
  milliseconds. (\<open>text\<close> is an Isabelle keyword, hence the prefix on both fields.)\<close>

record entry =
  e_text :: jsstring
  e_time :: int

text \<open>
  \<^verbatim>\<open>processText(rawText)\<close>, with the buffer passed in and returned. \<open>now\<close> is what
  \<^verbatim>\<open>Date.now()\<close> returns during the call; \<open>None\<close> is a \<^verbatim>\<open>null\<close> or
  \<^verbatim>\<open>undefined\<close> argument, which \<^verbatim>\<open>!rawText\<close> rejects like the empty string.
  Case A mutates the last entry in place, case D pushes and then shifts once when the
  length has passed 25.
\<close>

definition processText :: "int \<Rightarrow> jsstring option \<Rightarrow> entry list \<Rightarrow> entry list" where
  "processText now rawText buffer =
     (case rawText of
        None \<Rightarrow> buffer
      | Some raw \<Rightarrow>
          if raw = [] then buffer
          else
            let text0 = trim raw in
            if length text0 < 2 then buffer
            else if isUIText text0 then buffer
            else if buffer \<noteq> []
                    \<and> (startsWith text0 (e_text (last buffer))
                        \<or> str_includes text0 (e_text (last buffer)))
              then buffer[length buffer - 1 :=
                            (last buffer)\<lparr>e_text := text0, e_time := now\<rparr>]
            else if buffer \<noteq> [] \<and> str_includes (e_text (last buffer)) text0 then buffer
            else if buffer \<noteq> [] \<and> e_text (last buffer) = text0 then buffer
            else
              let pushed = buffer @ [\<lparr>e_text = text0, e_time = now\<rparr>] in
              if length pushed > 25 then tl pushed else pushed)"

text \<open>A run of ingestion events, each a clock reading and the fragment delivered.\<close>

fun ingest :: "(int \<times> jsstring option) list \<Rightarrow> entry list \<Rightarrow> entry list" where
  "ingest [] buffer = buffer"
| "ingest ((now, rawText) # events) buffer = ingest events (processText now rawText buffer)"

text \<open>
  \<^verbatim>\<open>getRecentCaptions()\<close>: the joined text of the entries younger than 90 seconds,
  returned with the buffer as the call leaves it (\<^verbatim>\<open>filter\<close> and \<^verbatim>\<open>map\<close> build new
  arrays; nothing is assigned).
\<close>

definition getRecentCaptions :: "int \<Rightarrow> entry list \<Rightarrow> jsstring \<times> entry list" where
  "getRecentCaptions now buffer =
     (let activeLines = filter (\<lambda>item. now - e_time item < 90000) buffer
      in (join [10] (map e_text activeLines), buffer))"

section \<open>JavaScript values and exceptions\<close>

text \<open>
  The values \<^verbatim>\<open>response.json()\<close> can deliver, and \<^verbatim>\<open>undefined\<close> for a property that
  is not there. A number is the rational it denotes. An object lists its own
  properties, each key once.
\<close>

datatype jsval =
    JUndefined
  | JNull
  | JBool bool
  | JNum rat
  | JStr jsstring
  | JArr "jsval list"
  | JObj "(jsstring \<times> jsval) list"

text \<open>
  The conversions of the JavaScript runtime that this code reaches but does not
  implement: number to string, string to number (\<open>None\<close> is \<^verbatim>\<open>NaN\<close>) and
  \<^verbatim>\<open>JSON.stringify\<close>. Every statement below holds for any such functions.
\<close>

record runtime =
  num_str :: "rat \<Rightarrow> jsstring"
  str_num :: "jsstring \<Rightarrow> rat option"
  json_stringify :: "jsval \<Rightarrow> jsstring"

definition nullish :: "jsval \<Rightarrow> bool" where
  "nullish v = (v = JUndefined \<or> v = JNull)"

fun truthy :: "jsval \<Rightarrow> bool" where
  "truthy JUndefined = False"
| "truthy JNull = False"
| "truthy (JBool b) = b"
| "truthy (JNum r) = (r \<noteq> 0)"
| "truthy (JStr s) = (s \<noteq> [])"
| "truthy (JArr xs) = True"
| "truthy (JObj kvs) = True"

text \<open>\<^verbatim>\<open>ToString\<close>, as string concatenation and template literals apply it; an array is
  joined with commas, \<^verbatim>\<open>null\<close> and \<^verbatim>\<open>undefined\<close> elements rendered empty.\<close>

fun ToString :: "runtime \<Rightarrow> jsval \<Rightarrow> jsstring" where
  "ToString rt JUndefined = js ''undefined''"
| "ToString rt JNull = js ''null''"
| "ToString rt (JBool b) = (if b then js ''true'' else js ''false'')"
| "ToString rt (JNum r) = num_str rt r"
| "ToString rt (JStr s) = s"
| "ToString rt (JArr xs) =
     join (js '','') (map (\<lambda>x. if x = JUndefined \<or> x = JNull then [] else ToString rt x) xs)"
| "ToString rt (JObj kvs) = js ''[object Object]''"

text \<open>\<^verbatim>\<open>ToNumber\<close>; \<open>None\<close> is \<^verbatim>\<open>NaN\<close>.\<close>

fun ToNumber :: "runtime \<Rightarrow> jsval \<Rightarrow> rat option" where
  "ToNumber rt JUndefined = None"
| "ToNumber rt JNull = Some 0"
| "ToNumber rt (JBool b) = Some (if b then 1 else 0)"
| "ToNumber rt (JNum r) = Some r"
| "ToNumber rt (JStr s) = str_num rt s"
| "ToNumber rt (JArr xs) = str_num rt (ToString rt (JArr xs))"
| "ToNumber rt (JObj kvs) = str_num rt (ToString rt (JObj kvs))"

text \<open>\<^verbatim>\<open>v >= m\<close> for a number \<open>m\<close>: false when \<open>v\<close> converts to \<^verbatim>\<open>NaN\<close>.\<close>

definition js_ge :: "runtime \<Rightarrow> jsval \<Rightarrow> rat \<Rightarrow> bool" where
  "js_ge rt v m = (case ToNumber rt v of None \<Rightarrow> False | Some x \<Rightarrow> m \<le> x)"

text \<open>
  What a \<^verbatim>\<open>throw\<close> or a rejected promise carries: a rejection of \<^verbatim>\<open>fetch\<close>,
  \<^verbatim>\<open>response.json()\<close> or \<^verbatim>\<open>response.text()\<close> with its message, the TypeError of reading
  a property of \<^verbatim>\<open>undefined\<close> or \<^verbatim>\<open>null\<close>, the TypeError of calling what is not a
  function, and the URIError of \<^verbatim>\<open>encodeURIComponent\<close>. \<open>message\<close> is \<^verbatim>\<open>err.message\<close> as
  V8 words it.
\<close>

datatype jserror =
    Rejected jsstring
  | TypeError_read jsval jsstring
  | TypeError_call jsstring
  | URIError_malformed

fun message :: "jserror \<Rightarrow> jsstring" where
  "message (Rejected m) = m"
| "message (TypeError_read v p) =
     js ''Cannot read properties of '' @ (if v = JNull then js ''null'' else js ''undefined'')
       @ js '' (reading '' @ [39] @ p @ [39] @ js '')''"
| "message (TypeError_call f) = f @ js '' is not a function''"
| "message URIError_malformed = js ''URI malformed''"

definition andThen :: "jserror + 'a \<Rightarrow> ('a \<Rightarrow> jserror + 'b) \<Rightarrow> jserror + 'b" where
  "andThen m f = (case m of Inl e \<Rightarrow> Inl e | Inr v \<Rightarrow> f v)"

text \<open>
  \<open>own_prop v p\<close> is \<^verbatim>\<open>v.p\<close> for a \<open>v\<close> that is neither \<^verbatim>\<open>undefined\<close> nor \<^verbatim>\<open>null\<close>, for the
  property names this code reads (\<^verbatim>\<open>error\<close>, \<^verbatim>\<open>message\<close>, \<^verbatim>\<open>choices\<close>, \<^verbatim>\<open>candidates\<close>,
  \<^verbatim>\<open>content\<close>, \<^verbatim>\<open>parts\<close>, \<^verbatim>\<open>text\<close>, \<^verbatim>\<open>results\<close>, \<^verbatim>\<open>similarity\<close>, \<^verbatim>\<open>title\<close>): none of them
  is a member of a built-in prototype, so only an object's own property has a value.
  \<open>elem0 v\<close> is \<^verbatim>\<open>v[0]\<close>. \<open>get\<close> and \<open>idx0\<close> add the TypeError on \<^verbatim>\<open>undefined\<close> and
  \<^verbatim>\<open>null\<close>; \<open>opt_get\<close> and \<open>opt_idx0\<close> are the optional-chaining reads \<^verbatim>\<open>v?.p\<close> and
  \<^verbatim>\<open>v?.[0]\<close>.
\<close>

definition own_prop :: "jsval \<Rightarrow> jsstring \<Rightarrow> jsval" where
  "own_prop v p =
     (case v of
        JObj kvs \<Rightarrow> (case map_of kvs p of None \<Rightarrow> JUndefined | Some x \<Rightarrow> x)
      | _ \<Rightarrow> JUndefined)"

definition elem0 :: "jsval \<Rightarrow> jsval" where
  "elem0 v =
     (case v of
        JArr xs \<Rightarrow> (case xs of [] \<Rightarrow> JUndefined | x # rest \<Rightarrow> x)
      | JStr s \<Rightarrow> (case s of [] \<Rightarrow> JUndefined | c # rest \<Rightarrow> JStr [c])
      | JObj kvs \<Rightarrow> (case map_of kvs (js ''0'') of None \<Rightarrow> JUndefined | Some x \<Rightarrow> x)
      | _ \<Rightarrow> JUndefined)"

definition get :: "jsval \<Rightarrow> jsstring \<Rightarrow> jserror + jsval" where
  "get v p = (if nullish v then Inl (TypeError_read v p) else Inr (own_prop v p))"

definition idx0 :: "jsval \<Rightarrow> jserror + jsval" where
  "idx0 v = (if nullish v then Inl (TypeError_read v (js ''0'')) else Inr (elem0 v))"

definition opt_get :: "jsval \<Rightarrow> jsstring \<Rightarrow> jsval" where
  "opt_get v p = (if nullish v then JUndefined else own_prop v p)"

definition opt_idx0 :: "jsval \<Rightarrow> jsval" where
  "opt_idx0 v = (if nullish v then JUndefined else elem0 v)"

section \<open>The network\<close>

text \<open>
  A \<^verbatim>\<open>credential\<close> is what \<^verbatim>\<open>apiKeys[provider] || ""\<close> evaluates to: a stored string,
  or, when the provider name is a member of \<^verbatim>\<open>Object.prototype\<close> and no key is stored
  under it, that member.
\<close>

datatype credential = Key jsstring | Member jsstring

text \<open>
  One constructor for each \<^verbatim>\<open>fetch\<close> call of \<^verbatim>\<open>background.js\<close> that generation can
  reach, with what varies in the request: the retrieval search (query, limit), and
  the five backends (Pollinations: prompt and model in the URL; the others: credential,
  model and prompt).
\<close>

datatype request =
    RagSearch jsstring nat
  | PollinationsGet jsstring jsstring
  | OpenAIChat credential jsstring jsstring
  | GeminiGenerate credential jsstring jsstring
  | OpenRouterChat credential jsstring jsstring
  | GroqChat credential jsstring jsstring

text \<open>A settled \<^verbatim>\<open>Response\<close>: the fields read, and what \<^verbatim>\<open>json()\<close> and \<^verbatim>\<open>text()\<close>
  resolve to or reject with.\<close>

record response =
  ok :: bool
  status :: nat
  statusText :: jsstring
  body_json :: "jserror + jsval"
  body_text :: "jserror + jsstring"

text \<open>The world answers each request with a rejection or a response. \<open>fetch\<close> also
  records the request in the list of outbound calls.\<close>

type_synonym world = "request \<Rightarrow> jserror + response"

definition fetch :: "world \<Rightarrow> request \<Rightarrow> request list \<Rightarrow> (jserror + response) \<times> request list" where
  "fetch w req calls = (w req, calls @ [req])"

section \<open>Configuration and settings\<close>

definition RAG_ENABLED :: bool where
  "RAG_ENABLED = True"

definition RAG_TOP_K :: nat where
  "RAG_TOP_K = 3"

definition RAG_MIN_SIMILARITY :: rat where
  "RAG_MIN_SIMILARITY = 1 / 2"

record provider_config =
  pc_name :: jsstring
  pc_defaultModel :: "jsstring option"
  pc_requiresKey :: bool

definition PROVIDERS_CONFIG :: "(jsstring \<times> provider_config) list" where
  "PROVIDERS_CONFIG =
     [(js ''pollinations'',
         \<lparr>pc_name = js ''Pollinations (Free)'', pc_defaultModel = None, pc_requiresKey = False\<rparr>),
      (js ''openai'',
         \<lparr>pc_name = js ''OpenAI'', pc_defaultModel = Some (js ''gpt-4o-mini''),
          pc_requiresKey = True\<rparr>),
      (js ''gemini'',
         \<lparr>pc_name = js ''Google Gemini'', pc_defaultModel = Some (js ''models/gemini-2.5-flash''),
          pc_requiresKey = True\<rparr>),
      (js ''openrouter'',
         \<lparr>pc_name = js ''OpenRouter'', pc_defaultModel = Some (js ''openai/gpt-oss-20b:free''),
          pc_requiresKey = True\<rparr>),
      (js ''groq'',
         \<lparr>pc_name = js ''Groq'', pc_defaultModel = Some (js ''llama-3.3-70b-versatile''),
          pc_requiresKey = True\<rparr>)]"

text \<open>
  \<^verbatim>\<open>obj[key]\<close> on a plain object: an own property, else a member inherited from
  \<^verbatim>\<open>Object.prototype\<close>, else \<^verbatim>\<open>undefined\<close>.
\<close>

datatype 'a lookup = Own 'a | Inherited | Absent

definition object_prototype_names :: "jsstring list" where
  "object_prototype_names =
     map js [''constructor'', ''__defineGetter__'', ''__defineSetter__'', ''hasOwnProperty'',
             ''__lookupGetter__'', ''__lookupSetter__'', ''isPrototypeOf'',
             ''propertyIsEnumerable'', ''toString'', ''valueOf'', ''__proto__'',
             ''toLocaleString'']"

definition obj_lookup :: "(jsstring \<times> 'a) list \<Rightarrow> jsstring \<Rightarrow> 'a lookup" where
  "obj_lookup obj k =
     (case map_of obj k of
        Some v \<Rightarrow> Own v
      | None \<Rightarrow> if k \<in> set object_prototype_names then Inherited else Absent)"

text \<open>What \<^verbatim>\<open>chrome.storage.local.get\<close> resolves to; \<open>None\<close> is a key that is not
  stored. (\<^verbatim>\<open>prompt\<close> and \<^verbatim>\<open>tone\<close> are read and never used.)\<close>

record settings =
  st_provider :: "jsstring option"
  st_model :: "jsstring option"
  st_ragEnabled :: "bool option"
  st_apiKeys :: "(jsstring \<times> jsstring) list option"

record payload =
  recentCaptions :: jsstring

section \<open>Retrieval: \<^verbatim>\<open>getRagContext\<close>\<close>

text \<open>\<^verbatim>\<open>Array.prototype.filter\<close> and \<^verbatim>\<open>map\<close> with a callback that may throw: the first
  exception ends the traversal.\<close>

fun filterE :: "('a \<Rightarrow> jserror + bool) \<Rightarrow> 'a list \<Rightarrow> jserror + 'a list" where
  "filterE p [] = Inr []"
| "filterE p (x # xs) =
     andThen (p x) (\<lambda>keep. andThen (filterE p xs) (\<lambda>rest. Inr (if keep then x # rest else rest)))"

fun mapE :: "('a \<Rightarrow> jserror + 'b) \<Rightarrow> 'a list \<Rightarrow> jserror + 'b list" where
  "mapE f [] = Inr []"
| "mapE f (x # xs) = andThen (f x) (\<lambda>y. andThen (mapE f xs) (\<lambda>ys. Inr (y # ys)))"

text \<open>
  The expression \<^verbatim>\<open>data.results.filter(...).map(...).join("\n\n")\<close>. Calling
  \<^verbatim>\<open>filter\<close> on \<^verbatim>\<open>undefined\<close> or \<^verbatim>\<open>null\<close> is a TypeError of the read, on any other value
  that is not an array a TypeError of the call.
\<close>

definition relevantChunks :: "runtime \<Rightarrow> jsval \<Rightarrow> jserror + jsstring" where
  "relevantChunks rt data =
     andThen (get data (js ''results'')) (\<lambda>results.
       andThen
         (case results of
            JArr rs \<Rightarrow>
              filterE (\<lambda>r. andThen (get r (js ''similarity''))
                              (\<lambda>s. Inr (js_ge rt s RAG_MIN_SIMILARITY))) rs
          | JUndefined \<Rightarrow> Inl (TypeError_read results (js ''filter''))
          | JNull \<Rightarrow> Inl (TypeError_read results (js ''filter''))
          | _ \<Rightarrow> Inl (TypeError_call (js ''data.results.filter'')))
         (\<lambda>kept.
            andThen
              (mapE (\<lambda>r. andThen (get r (js ''title'')) (\<lambda>title.
                           andThen (get r (js ''content'')) (\<lambda>content.
                             Inr (js ''['' @ ToString rt title @ js '']: '' @ ToString rt content))))
                 kept)
              (\<lambda>blocks. Inr (join [10, 10] blocks))))"

text \<open>\<^verbatim>\<open>getRagContext(query)\<close>: every exception after the \<^verbatim>\<open>ENABLED\<close> test is caught
  and gives the empty string.\<close>

definition getRagContext ::
    "runtime \<Rightarrow> world \<Rightarrow> jsstring \<Rightarrow> request list \<Rightarrow> jsstring \<times> request list" where
  "getRagContext rt w query calls =
     (if \<not> RAG_ENABLED then ([], calls)
      else
        case fetch w (RagSearch query RAG_TOP_K) calls of
          (Inl err, calls') \<Rightarrow> ([], calls')
        | (Inr response, calls') \<Rightarrow>
            if \<not> ok response then ([], calls')
            else
              (case andThen (body_json response) (relevantChunks rt) of
                 Inl err \<Rightarrow> ([], calls')
               | Inr relevant \<Rightarrow> (relevant, calls')))"

section \<open>The backend adapters\<close>

text \<open>What an adapter returns: \<^verbatim>\<open>{error: ...}\<close> or \<^verbatim>\<open>{text: ...}\<close>.\<close>

datatype result = ResError jsstring | ResText jsval

text \<open>
  \<^verbatim>\<open>encodeURIComponent\<close> throws a URIError when its argument is not well-formed UTF-16:
  a high surrogate (D800 to DBFF) not followed by a low one (DC00 to DFFF), or a low
  surrogate on its own.
\<close>

fun well_formed_utf16 :: "jsstring \<Rightarrow> bool" where
  "well_formed_utf16 [] = True"
| "well_formed_utf16 [c] = (\<not> (55296 \<le> c \<and> c \<le> 57343))"
| "well_formed_utf16 (c # d # rest) =
     (if 55296 \<le> c \<and> c \<le> 56319
        then 56320 \<le> d \<and> d \<le> 57343 \<and> well_formed_utf16 rest
      else if 56320 \<le> c \<and> c \<le> 57343 then False
      else well_formed_utf16 (d # rest))"

text \<open>\<^verbatim>\<open>callPollinations\<close>: the prompt is encoded into the URL before the \<^verbatim>\<open>fetch\<close>.\<close>

definition callPollinations ::
    "runtime \<Rightarrow> world \<Rightarrow> jsstring \<Rightarrow> jsstring \<Rightarrow> request list
       \<Rightarrow> (jserror + result) \<times> request list" where
  "callPollinations rt w systemPrompt model calls =
     (if \<not> well_formed_utf16 systemPrompt then (Inl URIError_malformed, calls)
      else
        case fetch w (PollinationsGet systemPrompt model) calls of
          (Inl err, calls') \<Rightarrow> (Inl err, calls')
        | (Inr response, calls') \<Rightarrow>
            (if \<not> ok response
               then Inr (ResError (js ''Pollinations Error: ''
                                     @ num_str rt (of_nat (status response))
                                     @ js '' '' @ statusText response))
             else andThen (body_text response) (\<lambda>text0. Inr (ResText (JStr text0))),
             calls'))"

definition callOpenAI ::
    "runtime \<Rightarrow> world \<Rightarrow> credential \<Rightarrow> jsstring \<Rightarrow> jsstring \<Rightarrow> request list
       \<Rightarrow> (jserror + result) \<times> request list" where
  "callOpenAI rt w apiKey model systemPrompt calls =
     (case fetch w (OpenAIChat apiKey model systemPrompt) calls of
        (Inl err, calls') \<Rightarrow> (Inl err, calls')
      | (Inr response, calls') \<Rightarrow>
          (andThen (body_json response) (\<lambda>data.
             andThen (get data (js ''error'')) (\<lambda>error.
               if truthy error
                 then andThen (get error (js ''message'')) (\<lambda>m.
                        Inr (ResError (js ''OpenAI Error: '' @ ToString rt m)))
               else
                 andThen (get data (js ''choices'')) (\<lambda>choices.
                 andThen (idx0 choices) (\<lambda>choice.
                 andThen (get choice (js ''message'')) (\<lambda>msg.
                 andThen (get msg (js ''content'')) (\<lambda>content.
                   Inr (ResText content))))))),
           calls'))"

text \<open>\<^verbatim>\<open>model.replace(/^models\//, '')\<close>\<close>

definition strip_models :: "jsstring \<Rightarrow> jsstring" where
  "strip_models model =
     (if prefix (js ''models/'') model then drop (length (js ''models/'')) model else model)"

definition callGemini ::
    "runtime \<Rightarrow> world \<Rightarrow> credential \<Rightarrow> jsstring \<Rightarrow> jsstring \<Rightarrow> request list
       \<Rightarrow> (jserror + result) \<times> request list" where
  "callGemini rt w apiKey model systemPrompt calls =
     (let modelName = strip_models model in
      case fetch w (GeminiGenerate apiKey modelName systemPrompt) calls of
        (Inl err, calls') \<Rightarrow> (Inl err, calls')
      | (Inr response, calls') \<Rightarrow>
          (andThen (body_json response) (\<lambda>data.
             andThen (get data (js ''error'')) (\<lambda>error.
               if truthy error
                 then andThen (get error (js ''message'')) (\<lambda>m.
                        Inr (ResError (js ''Gemini Error: '' @ ToString rt m)))
               else
                 andThen (get data (js ''candidates'')) (\<lambda>candidates.
                   let text0 =
                         opt_get (opt_idx0 (opt_get (opt_get (elem0 candidates) (js ''content''))
                                              (js ''parts''))) (js ''text'')
                   in if truthy candidates \<and> truthy text0 then Inr (ResText text0)
                      else Inr (ResError (js ''Gemini: No response generated''))))),
           calls'))"

definition callOpenRouter ::
    "runtime \<Rightarrow> world \<Rightarrow> credential \<Rightarrow> jsstring \<Rightarrow> jsstring \<Rightarrow> request list
       \<Rightarrow> (jserror + result) \<times> request list" where
  "callOpenRouter rt w apiKey model systemPrompt calls =
     (case fetch w (OpenRouterChat apiKey model systemPrompt) calls of
        (Inl err, calls') \<Rightarrow> (Inl err, calls')
      | (Inr response, calls') \<Rightarrow>
          (andThen (body_json response) (\<lambda>data.
             andThen (get data (js ''error'')) (\<lambda>error.
               if truthy error
                 then andThen (get error (js ''message'')) (\<lambda>m.
                        Inr (ResError (js ''OpenRouter Error: ''
                               @ (if truthy m then ToString rt m else json_stringify rt error))))
               else
                 andThen (get data (js ''choices'')) (\<lambda>choices.
                   let content = opt_get (opt_get (elem0 choices) (js ''message'')) (js ''content'')
                   in if truthy choices \<and> truthy content then Inr (ResText content)
                      else Inr (ResError (js ''OpenRouter: No response generated''))))),
           calls'))"

definition callGroq ::
    "runtime \<Rightarrow> world \<Rightarrow> credential \<Rightarrow> jsstring \<Rightarrow> jsstring \<Rightarrow> request list
       \<Rightarrow> (jserror + result) \<times> request list" where
  "callGroq rt w apiKey model systemPrompt calls =
     (case fetch w (GroqChat apiKey model systemPrompt) calls of
        (Inl err, calls') \<Rightarrow> (Inl err, calls')
      | (Inr response, calls') \<Rightarrow>
          (andThen (body_json response) (\<lambda>data.
             andThen (get data (js ''error'')) (\<lambda>error.
               if truthy error
                 then andThen (get error (js ''message'')) (\<lambda>m.
                        Inr (ResError (js ''Groq Error: '' @ ToString rt m)))
               else
                 andThen (get data (js ''choices'')) (\<lambda>choices.
                 andThen (idx0 choices) (\<lambda>choice.
                 andThen (get choice (js ''message'')) (\<lambda>msg.
                 andThen (get msg (js ''content'')) (\<lambda>content.
                   Inr (ResText content))))))),
           calls'))"

section \<open>\<^verbatim>\<open>handleGenerateResponse\<close>\<close>

text \<open>
  The literal text of the prompt template, taken as given: \<open>p_head\<close> is the text of
  lines 782 to 820 of \<^verbatim>\<open>background.js\<close>, \<open>p_kb_open\<close> and \<open>p_kb_close\<close> what lines 824 to
  829 put before and after \<^verbatim>\<open>${ragContext}\<close>, \<open>p_ask_open\<close> and \<open>p_ask_close\<close> what lines
  832 to 840 put before and after \<^verbatim>\<open>${payload.recentCaptions}\<close>.
\<close>

record prompt_text =
  p_head :: jsstring
  p_kb_open :: jsstring
  p_kb_close :: jsstring
  p_ask_open :: jsstring
  p_ask_close :: jsstring

definition buildSystemPrompt :: "prompt_text \<Rightarrow> jsstring \<Rightarrow> jsstring \<Rightarrow> jsstring" where
  "buildSystemPrompt tpl ragContext captions =
     p_head tpl
     @ (if ragContext \<noteq> [] then p_kb_open tpl @ ragContext @ p_kb_close tpl else [])
     @ p_ask_open tpl @ captions @ p_ask_close tpl"

text \<open>What \<^verbatim>\<open>sendResponse\<close> receives: the adapter's object, \<^verbatim>\<open>usedRag\<close> set or not.\<close>

datatype reply = ReplyError jsstring | ReplyText jsval bool

text \<open>How a call of the async handler ends: \<^verbatim>\<open>sendResponse\<close> was called with a reply, or
  the handler's promise rejected and \<^verbatim>\<open>sendResponse\<close> was never called.\<close>

datatype outcome = Responded reply | Unhandled jserror

text \<open>\<^verbatim>\<open>settings.provider || "pollinations"\<close>\<close>

definition provider_of :: "settings \<Rightarrow> jsstring" where
  "provider_of st =
     (case st_provider st of
        None \<Rightarrow> js ''pollinations''
      | Some p \<Rightarrow> if p = [] then js ''pollinations'' else p)"

text \<open>\<^verbatim>\<open>settings.model || PROVIDERS_CONFIG[provider]?.defaultModel || "openai"\<close>\<close>

definition model_of :: "settings \<Rightarrow> jsstring" where
  "model_of st =
     (let stored = (case st_model st of None \<Rightarrow> [] | Some m \<Rightarrow> m);
          dflt = (case obj_lookup PROVIDERS_CONFIG (provider_of st) of
                    Own cfg \<Rightarrow> (case pc_defaultModel cfg of None \<Rightarrow> [] | Some m \<Rightarrow> m)
                  | Inherited \<Rightarrow> []
                  | Absent \<Rightarrow> [])
      in if stored \<noteq> [] then stored else if dflt \<noteq> [] then dflt else js ''openai'')"

text \<open>\<^verbatim>\<open>(settings.apiKeys || {})[provider] || ""\<close>\<close>

definition apiKey_of :: "settings \<Rightarrow> credential" where
  "apiKey_of st =
     (case obj_lookup (case st_apiKeys st of None \<Rightarrow> [] | Some ks \<Rightarrow> ks) (provider_of st) of
        Own k \<Rightarrow> Key k
      | Inherited \<Rightarrow> Member (provider_of st)
      | Absent \<Rightarrow> Key [])"

text \<open>\<^verbatim>\<open>!apiKey\<close>\<close>

fun no_key :: "credential \<Rightarrow> bool" where
  "no_key (Key k) = (k = [])"
| "no_key (Member m) = False"

text \<open>The \<^verbatim>\<open>switch (provider)\<close> of lines 845 to 862.\<close>

definition dispatch ::
    "runtime \<Rightarrow> world \<Rightarrow> jsstring \<Rightarrow> credential \<Rightarrow> jsstring \<Rightarrow> jsstring \<Rightarrow> request list
       \<Rightarrow> (jserror + result) \<times> request list" where
  "dispatch rt w provider apiKey model systemPrompt calls =
     (if provider = js ''pollinations'' then callPollinations rt w systemPrompt model calls
      else if provider = js ''gemini'' then callGemini rt w apiKey model systemPrompt calls
      else if provider = js ''openrouter'' then callOpenRouter rt w apiKey model systemPrompt calls
      else if provider = js ''groq'' then callGroq rt w apiKey model systemPrompt calls
      else callOpenAI rt w apiKey model systemPrompt calls)"

text \<open>
  \<^verbatim>\<open>handleGenerateResponse(payload, sendResponse)\<close>: the outcome and the outbound calls
  made, in order. Reading \<^verbatim>\<open>providerConfig.requiresKey\<close> stands before the \<^verbatim>\<open>try\<close>: when
  \<^verbatim>\<open>PROVIDERS_CONFIG[provider]\<close> is \<^verbatim>\<open>undefined\<close> it throws and nothing catches it. An
  inherited member has no \<^verbatim>\<open>requiresKey\<close>. Whatever the dispatch throws is caught.
\<close>

definition handleGenerateResponse ::
    "runtime \<Rightarrow> world \<Rightarrow> prompt_text \<Rightarrow> settings \<Rightarrow> payload \<Rightarrow> outcome \<times> request list" where
  "handleGenerateResponse rt w tpl st pl =
     (let provider = provider_of st;
          model = model_of st;
          providerConfig = obj_lookup PROVIDERS_CONFIG provider;
          ragEnabled = (st_ragEnabled st \<noteq> Some False);
          apiKey = apiKey_of st
      in case providerConfig of
           Absent \<Rightarrow> (Unhandled (TypeError_read JUndefined (js ''requiresKey'')), [])
         | _ \<Rightarrow>
             if (case providerConfig of Own cfg \<Rightarrow> pc_requiresKey cfg | _ \<Rightarrow> False) \<and> no_key apiKey
               then (Responded (ReplyError
                       (js ''No API Key found for ''
                        @ (case providerConfig of Own cfg \<Rightarrow> pc_name cfg | _ \<Rightarrow> [])
                        @ js ''. Please open extension settings.'')), [])
             else
               let (ragContext, calls) =
                     (if ragEnabled then getRagContext rt w (recentCaptions pl) [] else ([], []));
                   systemPrompt = buildSystemPrompt tpl ragContext (recentCaptions pl);
                   (response, calls') = dispatch rt w provider apiKey model systemPrompt calls
               in (case response of
                     Inl err \<Rightarrow> Responded (ReplyError (js ''Network Error: '' @ message err))
                   | Inr (ResError e) \<Rightarrow> Responded (ReplyError e)
                   | Inr (ResText t) \<Rightarrow> Responded (ReplyText t (ragContext \<noteq> [] \<and> truthy t)),
                   calls'))"

section \<open>Predicates and inputs used in the statements\<close>

text \<open>A text as \<open>processText\<close> stores it: trimmed, at least two code units, not UI noise.\<close>

definition clean :: "jsstring \<Rightarrow> bool" where
  "clean t = (trim t = t \<and> 2 \<le> length t \<and> \<not> isUIText t)"

text \<open>Case D of \<open>processText\<close> on its own: \<^verbatim>\<open>push\<close>, then one \<^verbatim>\<open>shift\<close> when the
  length has passed 25.\<close>

definition pushCapped :: "entry list \<Rightarrow> entry \<Rightarrow> entry list" where
  "pushCapped b e = (if length (b @ [e]) > 25 then tl (b @ [e]) else b @ [e])"

text \<open>No entry's text is contained in the text of the entry before it.\<close>

definition fresh :: "entry list \<Rightarrow> bool" where
  "fresh b = successively (\<lambda>p q. \<not> sublist (e_text q) (e_text p)) b"

text \<open>The entry that case D builds from an accepted fragment.\<close>

definition entry_of :: "int \<times> jsstring \<Rightarrow> entry" where
  "entry_of ev = \<lparr>e_text = trim (snd ev), e_time = fst ev\<rparr>"

text \<open>Neither of two consecutive fragments contains the other once trimmed, so case D
  applies to the second.\<close>

definition unmergeable :: "int \<times> jsstring \<Rightarrow> int \<times> jsstring \<Rightarrow> bool" where
  "unmergeable a b =
     (\<not> str_includes (trim (snd b)) (trim (snd a)) \<and> \<not> str_includes (trim (snd a)) (trim (snd b)))"

text \<open>The fragment passes steps 1 and 2 of \<open>processText\<close>.\<close>

definition accepted :: "jsstring \<Rightarrow> bool" where
  "accepted raw = (2 \<le> length (trim raw) \<and> \<not> isUIText (trim raw))"

text \<open>
  The spec's query contract, in its words: the newline-joined texts, in buffer order, of
  the entries whose age \<open>now - observedAt\<close> is strictly below \<open>maxAgeMs\<close>. It is
  compared with \<open>getRecentCaptions\<close>, which has no parameter and fixes 90000.
\<close>

definition recentWindow_spec :: "int \<Rightarrow> int \<Rightarrow> entry list \<Rightarrow> jsstring" where
  "recentWindow_spec maxAgeMs now buffer =
     join [10] (map e_text (filter (\<lambda>e. now - e_time e < maxAgeMs) buffer))"

text \<open>Thirty fragments \<^verbatim>\<open>q0\<close>, \<^verbatim>\<open>q1\<close>, \<^verbatim>\<open>q2\<close>, ... (the second code unit counts up from
  \<^verbatim>\<open>0\<close>), delivered at times 0 to 29; an input for the bounded-buffer property.\<close>

definition thirty :: "(int \<times> jsstring) list" where
  "thirty = map (\<lambda>i. (int i, [113, 48 + i])) [0..<30]"

text \<open>The request is the retrieval search, not a backend call.\<close>

definition is_rag :: "request \<Rightarrow> bool" where
  "is_rag req = (case req of RagSearch q k \<Rightarrow> True | _ \<Rightarrow> False)"

text \<open>The request that \<open>dispatch\<close> sends for a provider: one per branch of the
  \<^verbatim>\<open>switch\<close>.\<close>

definition backend_request :: "jsstring \<Rightarrow> credential \<Rightarrow> jsstring \<Rightarrow> jsstring \<Rightarrow> request" where
  "backend_request provider apiKey model systemPrompt =
     (if provider = js ''pollinations'' then PollinationsGet systemPrompt model
      else if provider = js ''gemini'' then GeminiGenerate apiKey (strip_models model) systemPrompt
      else if provider = js ''openrouter'' then OpenRouterChat apiKey model systemPrompt
      else if provider = js ''groq'' then GroqChat apiKey model systemPrompt
      else OpenAIChat apiKey model systemPrompt)"

text \<open>The backend calls of a dispatch: that request, or none when the Pollinations
  prompt cannot be encoded.\<close>

definition backend_calls :: "jsstring \<Rightarrow> credential \<Rightarrow> jsstring \<Rightarrow> jsstring \<Rightarrow> request list" where
  "backend_calls provider apiKey model systemPrompt =
     (if provider = js ''pollinations'' \<and> \<not> well_formed_utf16 systemPrompt then []
      else [backend_request provider apiKey model systemPrompt])"

text \<open>
  The part of \<open>handleGenerateResponse\<close> before any outbound call: \<open>Some\<close> is an outcome
  reached there (the uncaught TypeError, or the missing-key reply), \<open>None\<close> lets the
  request go on.
\<close>

definition gate :: "settings \<Rightarrow> outcome option" where
  "gate st =
     (case obj_lookup PROVIDERS_CONFIG (provider_of st) of
        Absent \<Rightarrow> Some (Unhandled (TypeError_read JUndefined (js ''requiresKey'')))
      | Inherited \<Rightarrow> None
      | Own cfg \<Rightarrow>
          if pc_requiresKey cfg \<and> no_key (apiKey_of st)
            then Some (Responded (ReplyError (js ''No API Key found for '' @ pc_name cfg
                                               @ js ''. Please open extension settings.'')))
          else None)"

text \<open>The end of \<open>handleGenerateResponse\<close>: what is passed to \<^verbatim>\<open>sendResponse\<close> for what
  the dispatch returned or threw.\<close>

definition finish :: "jsstring \<Rightarrow> jserror + result \<Rightarrow> outcome" where
  "finish ragContext response =
     (case response of
        Inl err \<Rightarrow> Responded (ReplyError (js ''Network Error: '' @ message err))
      | Inr (ResError e) \<Rightarrow> Responded (ReplyError e)
      | Inr (ResText t) \<Rightarrow> Responded (ReplyText t (ragContext \<noteq> [] \<and> truthy t)))"

text \<open>A retrieved snippet as the spec's data model has it, and the JSON object the
  retrieval service sends for it.\<close>

record snippet =
  sn_title :: jsstring
  sn_content :: jsstring
  sn_similarity :: rat

definition snippet_json :: "snippet \<Rightarrow> jsval" where
  "snippet_json s =
     JObj [(js ''title'', JStr (sn_title s)), (js ''content'', JStr (sn_content s)),
           (js ''similarity'', JNum (sn_similarity s))]"

text \<open>The block \<^verbatim>\<open>[title]: content\<close> of one snippet.\<close>

definition format_snippet :: "snippet \<Rightarrow> jsstring" where
  "format_snippet s = js ''['' @ sn_title s @ js '']: '' @ sn_content s"

text \<open>
  The knowledge-base block in the spec's words: the snippets with similarity at least
  0.5, at most the first three of them, each formatted and joined by a blank line. It is
  compared with what \<open>getRagContext\<close> returns.
\<close>

definition kb_block_spec :: "snippet list \<Rightarrow> jsstring" where
  "kb_block_spec rs =
     join [10, 10] (map format_snippet (take 3 (filter (\<lambda>s. 1 / 2 \<le> sn_similarity s) rs)))"

text \<open>
  Retrieval fails: \<^verbatim>\<open>fetch\<close> rejects, or the response is not ok, or its body is not JSON,
  or the expression over \<^verbatim>\<open>data.results\<close> throws.
\<close>

definition rag_fails :: "runtime \<Rightarrow> world \<Rightarrow> jsstring \<Rightarrow> bool" where
  "rag_fails rt w query =
     (case w (RagSearch query RAG_TOP_K) of
        Inl err \<Rightarrow> True
      | Inr response \<Rightarrow>
          (if ok response
             then (case body_json response of
                     Inl err \<Rightarrow> True
                   | Inr data \<Rightarrow> (case relevantChunks rt data of Inl err \<Rightarrow> True | Inr s \<Rightarrow> False))
           else True))"

text \<open>Inputs for the concrete runs below: a runtime, a prompt template, a 200 response
  with a JSON body, snippet lists, worlds, settings and a payload.\<close>

definition demo_runtime :: runtime where
  "demo_runtime = \<lparr>num_str = (\<lambda>r. []), str_num = (\<lambda>s. None), json_stringify = (\<lambda>v. [])\<rparr>"

definition demo_prompt :: prompt_text where
  "demo_prompt = \<lparr>p_head = js ''You are a coach. '', p_kb_open = js ''KB: '', p_kb_close = js ''. '',
                   p_ask_open = js ''Q: '', p_ask_close = js '' Answer now.''\<rparr>"

definition json_response :: "jsval \<Rightarrow> response" where
  "json_response data =
     \<lparr>ok = True, status = 200, statusText = js ''OK'', body_json = Inr data,
      body_text = Inl (Rejected (js ''body stream already read''))\<rparr>"

definition five_snippets :: "snippet list" where
  "five_snippets =
     [\<lparr>sn_title = js ''a'', sn_content = js ''one'', sn_similarity = 9 / 10\<rparr>,
      \<lparr>sn_title = js ''b'', sn_content = js ''two'', sn_similarity = 49 / 100\<rparr>,
      \<lparr>sn_title = js ''c'', sn_content = js ''three'', sn_similarity = 1 / 2\<rparr>,
      \<lparr>sn_title = js ''d'', sn_content = js ''four'', sn_similarity = 8 / 10\<rparr>,
      \<lparr>sn_title = js ''e'', sn_content = js ''five'', sn_similarity = 7 / 10\<rparr>]"

text \<open>A world whose retrieval service returns the given snippets and whose backends are
  unreachable.\<close>

definition search_world :: "snippet list \<Rightarrow> world" where
  "search_world rs req =
     (case req of
        RagSearch q k \<Rightarrow> Inr (json_response (JObj [(js ''results'', JArr (map snippet_json rs))]))
      | _ \<Rightarrow> Inl (Rejected (js ''Failed to fetch'')))"

text \<open>Stored settings with a provider name and nothing else.\<close>

definition settings_for :: "string \<Rightarrow> settings" where
  "settings_for p =
     \<lparr>st_provider = Some (js p), st_model = None, st_ragEnabled = None, st_apiKeys = None\<rparr>"

text \<open>A world in which every \<^verbatim>\<open>fetch\<close> rejects.\<close>

definition offline :: world where
  "offline req = Inl (Rejected (js ''Failed to fetch''))"

definition demo_payload :: payload where
  "demo_payload = \<lparr>recentCaptions = js ''What is your biggest weakness?''\<rparr>"

definition three_snippets :: "snippet list" where
  "three_snippets =
     [\<lparr>sn_title = js ''b'', sn_content = js ''two'', sn_similarity = 49 / 100\<rparr>,
      \<lparr>sn_title = js ''c'', sn_content = js ''three'', sn_similarity = 1 / 2\<rparr>,
      \<lparr>sn_title = js ''d'', sn_content = js ''four'', sn_similarity = 8 / 10\<rparr>]"

text \<open>A world whose retrieval service answers 500 and whose Pollinations backend
  answers with a text.\<close>

definition rag_down :: world where
  "rag_down req =
     (case req of
        RagSearch q k \<Rightarrow>
          Inr \<lparr>ok = False, status = 500, statusText = js ''Internal Server Error'',
               body_json = Inr (JObj [(js ''detail'', JStr (js ''index unavailable''))]),
               body_text = Inl (Rejected (js ''body stream already read''))\<rparr>
      | PollinationsGet sp m \<Rightarrow>
          Inr \<lparr>ok = True, status = 200, statusText = js ''OK'',
               body_json = Inl (Rejected (js ''Unexpected token'')),
               body_text = Inr (js ''Be honest.'')\<rparr>
      | _ \<Rightarrow> Inl (Rejected (js ''Failed to fetch'')))"

section \<open>Lemmas about strings and the buffer\<close>

lemma dropWhile_rev_dropWhile:
  "dropWhile P (rev (dropWhile P (rev (dropWhile P s)))) = rev (dropWhile P (rev (dropWhile P s)))"
proof -
  let ?a = "dropWhile P s"
  let ?b = "rev (dropWhile P (rev ?a))"
  show ?thesis
  proof (cases "?b = []")
    case True
    then show ?thesis by (simp only: dropWhile.simps)
  next
    case False
    then have ne: "dropWhile P (rev ?a) \<noteq> []" by simp
    have "hd ?b = last (dropWhile P (rev ?a))" using ne by (simp add: hd_rev)
    also have "\<dots> = last (rev ?a)" using ne by (metis takeWhile_dropWhile_id last_appendR)
    also have "\<dots> = hd ?a" using ne by (metis dropWhile.simps(1) last_rev rev_is_Nil_conv)
    finally have "hd ?b = hd ?a" .
    moreover have "?a \<noteq> []" using ne by (metis dropWhile.simps(1) rev_is_Nil_conv)
    then have "\<not> P (hd ?a)" by (rule hd_dropWhile)
    ultimately have "\<not> P (hd ?b)" by simp
    then show ?thesis by (simp add: dropWhile_eq_self_iff)
  qed
qed

lemma trim_idem: "trim (trim s) = trim s"
  unfolding trim_def by (simp add: dropWhile_rev_dropWhile)

lemma isUIText_trim: "isUIText (trim s) = isUIText s"
  by (simp add: isUIText_def trim_idem)

lemma trim_Nil: "trim [] = []"
  by (simp add: trim_def)

lemma update_last: "b \<noteq> [] \<Longrightarrow> b[length b - 1 := x] = butlast b @ [x]"
  by (metis append_butlast_last_id length_butlast list_update_length)

lemma processText_rejected:
  "length (trim raw) < 2 \<or> isUIText (trim raw) \<Longrightarrow> processText now (Some raw) b = b"
  by (auto simp: processText_def Let_def)

lemma processText_None: "processText now None b = b"
  by (simp add: processText_def)

lemma processText_accepted:
  assumes "2 \<le> length (trim raw)" "\<not> isUIText (trim raw)"
  shows "processText now (Some raw) b =
     (if b \<noteq> [] \<and> sublist (e_text (last b)) (trim raw)
        then butlast b @ [\<lparr>e_text = trim raw, e_time = now\<rparr>]
      else if b \<noteq> [] \<and> sublist (trim raw) (e_text (last b)) then b
      else pushCapped b \<lparr>e_text = trim raw, e_time = now\<rparr>)"
proof -
  have ne: "raw \<noteq> []" using assms(1) by (auto simp: trim_Nil)
  have r: "(last b)\<lparr>e_text := trim raw, e_time := now\<rparr> = \<lparr>e_text = trim raw, e_time = now\<rparr>"
    by simp
  have upd: "b \<noteq> [] \<Longrightarrow> b[length b - 1 := (last b)\<lparr>e_text := trim raw, e_time := now\<rparr>]
      = butlast b @ [\<lparr>e_text = trim raw, e_time = now\<rparr>]"
    unfolding r by (rule update_last)
  have pre: "prefix x y \<Longrightarrow> sublist x y" for x y :: jsstring by simp
  show ?thesis
    unfolding processText_def Let_def pushCapped_def startsWith_def str_includes_def
    using ne assms upd pre by (simp del: One_nat_def length_tl) 
qed

lemma processText_cases:
  obtains (Same) "processText now raw b = b"
  | (Update) t where "clean t" "b \<noteq> []" "sublist (e_text (last b)) t"
      "processText now raw b = butlast b @ [\<lparr>e_text = t, e_time = now\<rparr>]"
  | (Push) t where "clean t" "b = [] \<or> \<not> sublist t (e_text (last b))"
      "processText now raw b = pushCapped b \<lparr>e_text = t, e_time = now\<rparr>"
proof (cases raw)
  case None
  then show ?thesis using Same by (simp add: processText_None)
next
  case (Some r)
  show ?thesis
  proof (cases "length (trim r) < 2 \<or> isUIText (trim r)")
    case True
    then show ?thesis using Same Some processText_rejected by simp
  next
    case False
    then have a: "2 \<le> length (trim r)" "\<not> isUIText (trim r)" by auto
    then have c: "clean (trim r)" by (simp add: clean_def trim_idem)
    note pt = processText_accepted [OF a, of now b]
    show ?thesis
    proof (cases "b \<noteq> [] \<and> sublist (e_text (last b)) (trim r)")
      case True
      then show ?thesis using Update [of "trim r"] c pt Some by simp
    next
      case nu: False
      show ?thesis
      proof (cases "b \<noteq> [] \<and> sublist (trim r) (e_text (last b))")
        case True
        then show ?thesis using Same pt nu Some by simp
      next
        case False
        then show ?thesis using Push [of "trim r"] c pt nu Some by auto
      qed
    qed
  qed
qed

text \<open>Unfolding rules that let \<open>simp\<close> run the definitions on concrete strings.\<close>

lemmas ev = isUIText_def uiPatterns_def js_def trim_def isWhiteSpace_def isDigit_def isUpper_def
  upcase_def ci_starts_def ci_whole_def rx_initials_def processText_def startsWith_def str_includes_def
  sublist_Cons_right accepted_def

lemma ingest_append: "ingest (xs @ ys) b = ingest ys (ingest xs b)"
  by (induction xs arbitrary: b) auto

lemma length_processText: "length b \<le> 25 \<Longrightarrow> length (processText now raw b) \<le> 25"
  by (cases rule: processText_cases [of now raw b]) (auto simp: pushCapped_def)

lemma length_ingest: "length b \<le> 25 \<Longrightarrow> length (ingest evs b) \<le> 25"
  by (induction evs arbitrary: b) (auto simp: length_processText)

lemma successively_tl: "successively P xs \<Longrightarrow> successively P (tl xs)"
  by (cases xs) (auto simp: successively_Cons)

lemma fresh_snoc:
  "fresh (b @ [x]) \<longleftrightarrow> fresh b \<and> (b = [] \<or> \<not> sublist (e_text x) (e_text (last b)))"
  by (auto simp: fresh_def successively_append_iff)

lemma fresh_tl: "fresh b \<Longrightarrow> fresh (tl b)"
  by (simp add: fresh_def successively_tl)

lemma fresh_processText:
  assumes "fresh b"
  shows "fresh (processText now raw b)"
proof (cases rule: processText_cases [of now raw b])
  case Same
  then show ?thesis using assms by simp
next
  case (Update t)
  have "fresh (butlast b @ [last b])" using assms Update(2) by simp
  then have f: "fresh (butlast b)"
    and l: "butlast b = [] \<or> \<not> sublist (e_text (last b)) (e_text (last (butlast b)))"
    by (simp_all add: fresh_snoc)
  have "butlast b = [] \<or> \<not> sublist t (e_text (last (butlast b)))"
    using l Update(3) sublist_order.order_trans by blast
  then show ?thesis using f Update(4) by (simp add: fresh_snoc)
next
  case (Push t)
  have "fresh (b @ [\<lparr>e_text = t, e_time = now\<rparr>])"
    using assms Push(2) by (auto simp: fresh_snoc)
  then show ?thesis using Push(3) by (simp add: pushCapped_def fresh_tl del: length_tl)
qed

lemma fresh_ingest: "fresh b \<Longrightarrow> fresh (ingest evs b)"
  by (induction evs arbitrary: b) (auto simp: fresh_processText)

lemma fresh_distinct_adj: "fresh b \<Longrightarrow> distinct_adj (map e_text b)"
  unfolding fresh_def distinct_adj_def successively_map
  by (erule successively_mono) auto

lemma set_tl_subset: "set (tl xs) \<subseteq> set xs"
  by (cases xs) auto

lemma pushCapped_drop:
  "pushCapped (drop (length ys - 25) ys) e = drop (length (ys @ [e]) - 25) (ys @ [e])"
proof (cases "length ys < 25")
  case True
  then show ?thesis by (simp add: pushCapped_def)
next
  case False
  then have n: "25 \<le> length ys" by simp
  then have len: "length (drop (length ys - 25) ys) = 25" by simp
  then have ne: "drop (length ys - 25) ys \<noteq> []" by auto
  have "pushCapped (drop (length ys - 25) ys) e = tl (drop (length ys - 25) ys) @ [e]"
    using len ne by (simp add: pushCapped_def del: length_drop)
  also have "tl (drop (length ys - 25) ys) = drop (Suc (length ys - 25)) ys"
    by (simp add: drop_Suc tl_drop)
  also have "Suc (length ys - 25) = length (ys @ [e]) - 25" using n by simp
  also have "drop (length (ys @ [e]) - 25) ys @ [e] = drop (length (ys @ [e]) - 25) (ys @ [e])"
    using n by simp
  finally show ?thesis .
qed

lemma clean_processText:
  assumes "\<forall>e\<in>set b. clean (e_text e)"
  shows "\<forall>e\<in>set (processText now raw b). clean (e_text e)"
proof (cases rule: processText_cases [of now raw b])
  case Same
  then show ?thesis using assms by simp
next
  case (Update t)
  then show ?thesis using assms by (auto dest: in_set_butlastD)
next
  case (Push t)
  then show ?thesis using assms set_tl_subset [of "b @ [\<lparr>e_text = t, e_time = now\<rparr>]"]
    by (auto simp: pushCapped_def simp del: length_tl)
qed

lemma clean_ingest:
  "\<forall>e\<in>set b. clean (e_text e) \<Longrightarrow> \<forall>e\<in>set (ingest evs b). clean (e_text e)"
proof (induction evs arbitrary: b)
  case Nil
  then show ?case by simp
next
  case (Cons ev evs)
  obtain now raw where ev: "ev = (now, raw)" by (cases ev)
  show ?case unfolding ev ingest.simps
    by (rule Cons.IH) (rule clean_processText [OF Cons.prems])
qed

lemma ingest_unmergeable:
  assumes "\<forall>ev\<in>set frags. accepted (snd ev)" "successively unmergeable frags"
  shows "ingest (map (\<lambda>ev. (fst ev, Some (snd ev))) frags) []
         = drop (length frags - 25) (map entry_of frags)"
  using assms
proof (induction frags rule: rev_induct)
  case Nil
  then show ?case by simp
next
  case (snoc x xs)
  let ?b = "drop (length xs - 25) (map entry_of xs)"
  have sx: "successively unmergeable xs" and lx: "xs = [] \<or> unmergeable (last xs) x"
    using snoc.prems(2) by (auto simp: successively_append_iff)
  have ih: "ingest (map (\<lambda>ev. (fst ev, Some (snd ev))) xs) [] = ?b"
    using snoc.IH snoc.prems(1) sx by simp
  have acc: "2 \<le> length (trim (snd x))" "\<not> isUIText (trim (snd x))"
    using snoc.prems(1) by (auto simp: accepted_def)
  have bne: "xs \<noteq> [] \<and> last ?b = entry_of (last xs)" if "?b \<noteq> []"
  proof -
    have ne: "xs \<noteq> []" using that by auto
    have "length xs - 25 < length (map entry_of xs)" using ne by (cases xs) auto
    then have "last ?b = last (map entry_of xs)" by (rule last_drop)
    then show ?thesis using ne by (simp add: last_map)
  qed
  have step: "processText (fst x) (Some (snd x)) ?b = pushCapped ?b (entry_of x)"
    using processText_accepted [OF acc, of "fst x" ?b] bne lx
    by (auto simp: unmergeable_def str_includes_def entry_of_def)
  have "pushCapped ?b (entry_of x) = drop (length (xs @ [x]) - 25) (map entry_of (xs @ [x]))"
    using pushCapped_drop [of "map entry_of xs" "entry_of x"] by simp
  then show ?case using ih step by (simp add: ingest_append)
qed

lemma join_snoc_suffix: "suffix x (join sep (xs @ [x]))"
proof (induction xs)
  case Nil
  then show ?case by simp
next
  case (Cons a xs)
  then show ?case by (cases xs) (auto simp: suffix_append)
qed

lemma thirty_eval: "thirty = 
  [(0, [113, 48]), (1, [113, 49]), (2, [113, 50]), (3, [113, 51]), (4, [113, 52]),
   (5, [113, 53]), (6, [113, 54]), (7, [113, 55]), (8, [113, 56]), (9, [113, 57]),
   (10, [113, 58]), (11, [113, 59]), (12, [113, 60]), (13, [113, 61]), (14, [113, 62]),
   (15, [113, 63]), (16, [113, 64]), (17, [113, 65]), (18, [113, 66]), (19, [113, 67]),
   (20, [113, 68]), (21, [113, 69]), (22, [113, 70]), (23, [113, 71]), (24, [113, 72]),
   (25, [113, 73]), (26, [113, 74]), (27, [113, 75]), (28, [113, 76]), (29, [113, 77])]"
  by (simp add: thirty_def upt_rec)

section \<open>Lemmas about the generation pipeline\<close>

lemma fetch_calls: "snd (fetch w req calls) = calls @ [req]" and fetch_fst: "fst (fetch w req calls) = w req"
  by (simp_all add: fetch_def)

lemma callPollinations_calls:
  "callPollinations rt w sp m calls =
     (fst (callPollinations rt w sp m []),
      calls @ (if well_formed_utf16 sp then [PollinationsGet sp m] else []))"
  by (simp add: callPollinations_def fetch_def split: sum.splits)

lemma callOpenAI_calls:
  "callOpenAI rt w k m sp calls = (fst (callOpenAI rt w k m sp []), calls @ [OpenAIChat k m sp])"
  by (simp add: callOpenAI_def fetch_def split: sum.splits)

lemma callGemini_calls:
  "callGemini rt w k m sp calls = (fst (callGemini rt w k m sp []), calls @ [GeminiGenerate k (strip_models m) sp])"
  by (simp add: callGemini_def fetch_def Let_def split: sum.splits)

lemma callOpenRouter_calls:
  "callOpenRouter rt w k m sp calls = (fst (callOpenRouter rt w k m sp []), calls @ [OpenRouterChat k m sp])"
  by (simp add: callOpenRouter_def fetch_def split: sum.splits)

lemma callGroq_calls:
  "callGroq rt w k m sp calls = (fst (callGroq rt w k m sp []), calls @ [GroqChat k m sp])"
  by (simp add: callGroq_def fetch_def split: sum.splits)

lemma dispatch_calls:
  "dispatch rt w p k m sp calls = (fst (dispatch rt w p k m sp []), calls @ backend_calls p k m sp)"
  unfolding dispatch_def backend_calls_def backend_request_def
  using callPollinations_calls [of rt w sp m calls] callOpenAI_calls [of rt w k m sp calls]
    callGemini_calls [of rt w k m sp calls] callOpenRouter_calls [of rt w k m sp calls]
    callGroq_calls [of rt w k m sp calls]
  by simp

lemma backend_not_rag: "\<not> is_rag (backend_request p k m sp)"
  by (simp add: backend_request_def is_rag_def)

lemma backend_calls_not_rag: "filter (\<lambda>req. \<not> is_rag req) (backend_calls p k m sp) = backend_calls p k m sp"
  by (simp add: backend_calls_def backend_not_rag)

lemma dispatch_rejected:
  assumes "w (backend_request p k m sp) = Inl e"
  shows "fst (dispatch rt w p k m sp calls) = Inl e
         \<or> fst (dispatch rt w p k m sp calls) = Inl URIError_malformed"
  using assms unfolding dispatch_def backend_request_def
  by (auto simp: callPollinations_def callOpenAI_def callGemini_def callOpenRouter_def callGroq_def
      fetch_def Let_def split: if_splits)

lemma getRagContext_calls:
  "snd (getRagContext rt w q calls) = calls @ [RagSearch q 3]"
  by (simp add: getRagContext_def RAG_ENABLED_def RAG_TOP_K_def fetch_def split: sum.splits)

lemma handle_gated:
  "gate st = Some out \<Longrightarrow> handleGenerateResponse rt w tpl st pl = (out, [])"
  by (auto simp: handleGenerateResponse_def gate_def Let_def split: lookup.splits if_splits)

lemma dispatch_snd:
  "snd (dispatch rt w p k m sp calls) = calls @ backend_calls p k m sp"
  using dispatch_calls [of rt w p k m sp calls] by simp

lemma dispatch_fst:
  "fst (dispatch rt w p k m sp (c # calls)) = fst (dispatch rt w p k m sp [])"
  using dispatch_calls [of rt w p k m sp "c # calls"] by simp

lemma handle_open:
  assumes "gate st = None"
  shows "handleGenerateResponse rt w tpl st pl =
     (let ragContext = (if st_ragEnabled st \<noteq> Some False
                          then fst (getRagContext rt w (recentCaptions pl) []) else []);
          systemPrompt = buildSystemPrompt tpl ragContext (recentCaptions pl)
      in (finish ragContext
            (fst (dispatch rt w (provider_of st) (apiKey_of st) (model_of st) systemPrompt [])),
          (if st_ragEnabled st \<noteq> Some False then [RagSearch (recentCaptions pl) 3] else [])
          @ backend_calls (provider_of st) (apiKey_of st) (model_of st) systemPrompt))"
proof -
  have pass: "obj_lookup PROVIDERS_CONFIG (provider_of st) \<noteq> Absent"
    "\<not> ((case obj_lookup PROVIDERS_CONFIG (provider_of st) of Own cfg \<Rightarrow> pc_requiresKey cfg | _ \<Rightarrow> False)
        \<and> no_key (apiKey_of st))"
    using assms by (auto simp: gate_def split: lookup.splits if_splits)
  have h: "handleGenerateResponse rt w tpl st pl =
     (let (ragContext, calls) =
            (if st_ragEnabled st \<noteq> Some False
               then getRagContext rt w (recentCaptions pl) [] else ([], []));
          systemPrompt = buildSystemPrompt tpl ragContext (recentCaptions pl);
          (response, calls') =
            dispatch rt w (provider_of st) (apiKey_of st) (model_of st) systemPrompt calls
      in (finish ragContext response, calls'))"
    using pass unfolding handleGenerateResponse_def Let_def finish_def
    by (cases "obj_lookup PROVIDERS_CONFIG (provider_of st)") auto
  show ?thesis
    unfolding h Let_def case_prod_beta
    by (cases "getRagContext rt w (recentCaptions pl) []")
       (use getRagContext_calls [of rt w "recentCaptions pl" "[]"] in
         \<open>auto simp: dispatch_snd dispatch_fst\<close>)
qed

lemma andThen_simps:
  "andThen (Inr v) f = f v" "andThen (Inl e) f = Inl e"
  by (simp_all add: andThen_def)

lemma js_inj: "js a = js b \<longleftrightarrow> a = b"
  unfolding js_def using inj_of_char [where 'a = nat] by (simp add: inj_map_eq_map)

lemma get_snippet:
  "get (snippet_json s) (js ''similarity'') = Inr (JNum (sn_similarity s))"
  "get (snippet_json s) (js ''title'') = Inr (JStr (sn_title s))"
  "get (snippet_json s) (js ''content'') = Inr (JStr (sn_content s))"
  by (simp_all add: get_def snippet_json_def nullish_def own_prop_def js_inj)

lemma filterE_snippets:
  "filterE (\<lambda>r. andThen (get r (js ''similarity'')) (\<lambda>s. Inr (js_ge rt s m))) (map snippet_json rs)
     = Inr (map snippet_json (filter (\<lambda>s. m \<le> sn_similarity s) rs))"
  by (induction rs) (simp_all add: get_snippet andThen_simps js_ge_def)

lemma mapE_snippets:
  "mapE (\<lambda>r. andThen (get r (js ''title'')) (\<lambda>title.
               andThen (get r (js ''content'')) (\<lambda>content.
                 Inr (js ''['' @ ToString rt title @ js '']: '' @ ToString rt content))))
        (map snippet_json rs)
     = Inr (map format_snippet rs)"
  by (induction rs) (simp_all add: get_snippet andThen_simps format_snippet_def)

lemma relevantChunks_snippets:
  assumes "map_of kvs (js ''results'') = Some (JArr (map snippet_json rs))"
  shows "relevantChunks rt (JObj kvs)
           = Inr (join [10, 10] (map format_snippet (filter (\<lambda>s. 1 / 2 \<le> sn_similarity s) rs)))"
proof -
  have g: "get (JObj kvs) (js ''results'') = Inr (JArr (map snippet_json rs))"
    using assms by (simp add: get_def nullish_def own_prop_def)
  show ?thesis
    unfolding relevantChunks_def g andThen_simps
    by (simp add: filterE_snippets mapE_snippets andThen_simps RAG_MIN_SIMILARITY_def)
qed

lemma js_Nil: "js s = [] \<longleftrightarrow> s = []"
  by (simp add: js_def)

lemmas cfg_ev = obj_lookup_def PROVIDERS_CONFIG_def object_prototype_names_def provider_of_def
  apiKey_of_def model_of_def js_inj js_Nil

lemma is_rag_RagSearch: "is_rag (RagSearch q k)"
  by (simp add: is_rag_def)

lemma getRagContext_fails:
  assumes "rag_fails rt w query"
  shows "getRagContext rt w query calls = ([], calls @ [RagSearch query 3])"
  using assms
  by (auto simp: rag_fails_def getRagContext_def RAG_ENABLED_def RAG_TOP_K_def fetch_def
      andThen_simps split: sum.splits if_splits)

lemmas pipe_ev = getRagContext_def RAG_ENABLED_def RAG_TOP_K_def fetch_def andThen_simps
  relevantChunks_def get_def nullish_def own_prop_def js_ge_def RAG_MIN_SIMILARITY_def
  handleGenerateResponse_def dispatch_def callPollinations_def buildSystemPrompt_def

section \<open>The claims\<close>

text \<open>
  C1. A fragment that passes the length and noise filters and meets a non-empty buffer is
  compared with the last entry only, in this order: when it starts with or contains the
  last entry's text, the last entry is overwritten with the fragment and the current time
  and nothing is appended; else when the last entry's text contains the fragment, nothing
  changes; else when the two are equal, nothing changes; otherwise a new entry is
  appended (and the oldest entry dropped when that makes 26). Feeding
  \<^verbatim>\<open>Tell me about\<close> and then \<^verbatim>\<open>Tell me about yourself\<close> to the empty buffer leaves
  exactly one entry, with the second text.
\<close>

theorem C1_merge_decision:
  assumes "buffer \<noteq> []" "2 \<le> length (trim raw)" "\<not> isUIText (trim raw)"
  shows "processText now (Some raw) buffer =
           (if startsWith (trim raw) (e_text (last buffer))
               \<or> str_includes (trim raw) (e_text (last buffer))
              then butlast buffer @ [\<lparr>e_text = trim raw, e_time = now\<rparr>]
            else if str_includes (e_text (last buffer)) (trim raw) then buffer
            else if e_text (last buffer) = trim raw then buffer
            else if length buffer < 25 then buffer @ [\<lparr>e_text = trim raw, e_time = now\<rparr>]
            else tl buffer @ [\<lparr>e_text = trim raw, e_time = now\<rparr>])
         \<and> ingest [(t1, Some (js ''Tell me about'')), (t2, Some (js ''Tell me about yourself''))] []
             = [\<lparr>e_text = js ''Tell me about yourself'', e_time = t2\<rparr>]"
proof
  have pre: "prefix x y \<Longrightarrow> sublist x y" for x y :: jsstring by simp
  show "processText now (Some raw) buffer =
           (if startsWith (trim raw) (e_text (last buffer))
               \<or> str_includes (trim raw) (e_text (last buffer))
              then butlast buffer @ [\<lparr>e_text = trim raw, e_time = now\<rparr>]
            else if str_includes (e_text (last buffer)) (trim raw) then buffer
            else if e_text (last buffer) = trim raw then buffer
            else if length buffer < 25 then buffer @ [\<lparr>e_text = trim raw, e_time = now\<rparr>]
            else tl buffer @ [\<lparr>e_text = trim raw, e_time = now\<rparr>])"
    using processText_accepted [OF assms(2,3), of now buffer] assms(1) pre
    by (auto simp: startsWith_def str_includes_def pushCapped_def)
  show "ingest [(t1, Some (js ''Tell me about'')), (t2, Some (js ''Tell me about yourself''))] []
             = [\<lparr>e_text = js ''Tell me about yourself'', e_time = t2\<rparr>]"
    by (simp add: ev)
qed

text \<open>C1 at three fragments meeting the buffer \<^verbatim>\<open>[Hello there]\<close>: an extension, a stale
  part and a new utterance.\<close>

theorem C1_merge_decision_witness:
  "[\<lparr>e_text = js ''Hello there'', e_time = 1\<rparr>] \<noteq> []
   \<and> 2 \<le> length (trim (js '' Hello there friend ''))
   \<and> \<not> isUIText (trim (js '' Hello there friend ''))
   \<and> processText 7 (Some (js '' Hello there friend '')) [\<lparr>e_text = js ''Hello there'', e_time = 1\<rparr>]
       = [\<lparr>e_text = js ''Hello there friend'', e_time = 7\<rparr>]
   \<and> processText 8 (Some (js ''there'')) [\<lparr>e_text = js ''Hello there'', e_time = 1\<rparr>]
       = [\<lparr>e_text = js ''Hello there'', e_time = 1\<rparr>]
   \<and> processText 9 (Some (js ''Good bye'')) [\<lparr>e_text = js ''Hello there'', e_time = 1\<rparr>]
       = [\<lparr>e_text = js ''Hello there'', e_time = 1\<rparr>, \<lparr>e_text = js ''Good bye'', e_time = 9\<rparr>]"
proof -
  let ?b = "[\<lparr>e_text = js ''Hello there'', e_time = 1\<rparr>]"
  have a: "2 \<le> length (trim (js '' Hello there friend ''))"
    and u: "\<not> isUIText (trim (js '' Hello there friend ''))"
    by (simp_all add: ev)
  have a2: "2 \<le> length (trim (js ''there''))" and u2: "\<not> isUIText (trim (js ''there''))"
    by (simp_all add: ev)
  have a3: "2 \<le> length (trim (js ''Good bye''))" and u3: "\<not> isUIText (trim (js ''Good bye''))"
    by (simp_all add: ev)
  have ne: "?b \<noteq> []" by simp
  have t1: "trim (js '' Hello there friend '') = js ''Hello there friend''"
    and t2: "trim (js ''there'') = js ''there''" and t3: "trim (js ''Good bye'') = js ''Good bye''"
    by (simp_all add: js_def trim_def isWhiteSpace_def)
  have s1: "str_includes (js ''Hello there friend'') (js ''Hello there'')"
   and s2: "\<not> startsWith (js ''there'') (js ''Hello there'')"
       "\<not> str_includes (js ''there'') (js ''Hello there'')"
       "str_includes (js ''Hello there'') (js ''there'')"
   and s3: "\<not> startsWith (js ''Good bye'') (js ''Hello there'')"
       "\<not> str_includes (js ''Good bye'') (js ''Hello there'')"
       "\<not> str_includes (js ''Hello there'') (js ''Good bye'')"
       "js ''Hello there'' \<noteq> js ''Good bye''"
    by (simp_all add: js_def startsWith_def str_includes_def sublist_Cons_right)
  show ?thesis
    using C1_merge_decision [OF ne a u, of 7 0 0] C1_merge_decision [OF ne a2 u2, of 8 0 0]
      C1_merge_decision [OF ne a3 u3, of 9 0 0] a u
    unfolding t1 t2 t3 using s1 s2 s3 by simp
qed

text \<open>
  C2. Whatever is ingested from the empty buffer, the buffer never holds more than 25
  entries. When every fragment of a run passes the filters and no two consecutive
  fragments contain one another, the buffer after the run is the run's last 25 entries in
  the order of arrival (all of them when there are fewer): eviction is oldest first. For
  a run of 30 that is the run without its first 5.
\<close>

theorem C2_bounded_buffer:
  "length (ingest events []) \<le> 25
   \<and> (list_all (\<lambda>ev. accepted (snd ev)) frags \<and> successively unmergeable frags \<longrightarrow>
        ingest (map (\<lambda>ev. (fst ev, Some (snd ev))) frags) []
          = drop (length frags - 25) (map entry_of frags))
   \<and> (length frags = 30 \<and> list_all (\<lambda>ev. accepted (snd ev)) frags
        \<and> successively unmergeable frags \<longrightarrow>
        ingest (map (\<lambda>ev. (fst ev, Some (snd ev))) frags) [] = drop 5 (map entry_of frags))"
  using length_ingest [of "[]" events] ingest_unmergeable [of frags]
  by (simp add: list_all_iff)

text \<open>C2 at the thirty fragments of \<open>thirty\<close>: the buffer is entries 5 to 29.\<close>

theorem C2_bounded_buffer_witness:
  "length thirty = 30
   \<and> list_all (\<lambda>ev. accepted (snd ev)) thirty \<and> successively unmergeable thirty
   \<and> length (ingest (map (\<lambda>ev. (fst ev, Some (snd ev))) thirty) []) \<le> 25
   \<and> ingest (map (\<lambda>ev. (fst ev, Some (snd ev))) thirty) [] = drop 5 (map entry_of thirty)"
proof -
  have len: "length thirty = 30" by (simp add: thirty_def)
  have acc: "list_all (\<lambda>ev. accepted (snd ev)) thirty"
    unfolding thirty_eval by (simp add: ev)
  have chain: "successively unmergeable thirty"
    unfolding thirty_eval by (simp add: unmergeable_def ev)
  show ?thesis
    using C2_bounded_buffer [of "map (\<lambda>ev. (fst ev, Some (snd ev))) thirty" thirty] len acc chain
    by simp
qed

text \<open>
  C3. A generation trigger ends in a reply, whatever the backend answers, exactly when
  \<^verbatim>\<open>PROVIDERS_CONFIG[provider]\<close> is not \<^verbatim>\<open>undefined\<close>: then some reply is sent, and when
  every backend \<^verbatim>\<open>fetch\<close> rejects with an error the reply is the error
  \<^verbatim>\<open>Network Error: \<close> followed by its message (or by \<^verbatim>\<open>URI malformed\<close>, when the
  Pollinations prompt could not be encoded and no \<^verbatim>\<open>fetch\<close> was made). For a provider name with no entry (and
  not inherited from \<^verbatim>\<open>Object.prototype\<close>), reading \<^verbatim>\<open>providerConfig.requiresKey\<close> throws
  before the \<^verbatim>\<open>try\<close>: the handler ends with an uncaught TypeError, no reply and no
  outbound call.
\<close>

theorem C3_outcomes:
  "(obj_lookup PROVIDERS_CONFIG (provider_of st) = Absent \<longrightarrow>
      handleGenerateResponse rt w tpl st pl
        = (Unhandled (TypeError_read JUndefined (js ''requiresKey'')), []))
   \<and> (obj_lookup PROVIDERS_CONFIG (provider_of st) \<noteq> Absent \<longrightarrow>
        (\<exists>reply. fst (handleGenerateResponse rt w tpl st pl) = Responded reply))
   \<and> (gate st = None \<and> (\<forall>req. \<not> is_rag req \<longrightarrow> w req = Inl err) \<longrightarrow>
        fst (handleGenerateResponse rt w tpl st pl)
          = Responded (ReplyError (js ''Network Error: '' @ message err))
        \<or> fst (handleGenerateResponse rt w tpl st pl)
          = Responded (ReplyError (js ''Network Error: '' @ message URIError_malformed)))"
proof (intro conjI impI)
  assume "obj_lookup PROVIDERS_CONFIG (provider_of st) = Absent"
  then have "gate st = Some (Unhandled (TypeError_read JUndefined (js ''requiresKey'')))"
    by (simp add: gate_def)
  then show "handleGenerateResponse rt w tpl st pl
        = (Unhandled (TypeError_read JUndefined (js ''requiresKey'')), [])"
    by (rule handle_gated)
next
  assume known: "obj_lookup PROVIDERS_CONFIG (provider_of st) \<noteq> Absent"
  show "\<exists>reply. fst (handleGenerateResponse rt w tpl st pl) = Responded reply"
  proof (cases "gate st")
    case None
    show ?thesis
      unfolding handle_open [OF None] Let_def finish_def
      by (auto split: sum.splits result.splits)
  next
    case (Some out)
    then obtain reply where "out = Responded reply"
      using known by (auto simp: gate_def split: lookup.splits if_splits)
    then show ?thesis using handle_gated [OF Some] by simp
  qed
next
  assume a: "gate st = None \<and> (\<forall>req. \<not> is_rag req \<longrightarrow> w req = Inl err)"
  then have g: "gate st = None" and r: "\<And>req. \<not> is_rag req \<Longrightarrow> w req = Inl err" by auto
  show "fst (handleGenerateResponse rt w tpl st pl)
          = Responded (ReplyError (js ''Network Error: '' @ message err))
        \<or> fst (handleGenerateResponse rt w tpl st pl)
          = Responded (ReplyError (js ''Network Error: '' @ message URIError_malformed))"
  proof -
    have "w (backend_request p k m sp) = Inl err" for p k m sp
      by (rule r) (rule backend_not_rag)
    then have d: "fst (dispatch rt w p k m sp []) = Inl err
               \<or> fst (dispatch rt w p k m sp []) = Inl URIError_malformed" for p k m sp
      by (rule dispatch_rejected)
    have "finish c (fst (dispatch rt w p k m sp []))
            = Responded (ReplyError (js ''Network Error: '' @ message err))
          \<or> finish c (fst (dispatch rt w p k m sp []))
            = Responded (ReplyError (js ''Network Error: '' @ message URIError_malformed))"
      for c p k m sp
      using d [of p k m sp] unfolding finish_def by (elim disjE) simp_all
    then show ?thesis
      unfolding handle_open [OF g] Let_def fst_conv by blast
  qed
qed

text \<open>C3 at the stored provider \<^verbatim>\<open>anthropic\<close> (the uncaught TypeError) and at
  \<^verbatim>\<open>pollinations\<close> with the network down (the rewrapped network error).\<close>

theorem C3_outcomes_witness:
  "obj_lookup PROVIDERS_CONFIG (provider_of (settings_for ''anthropic'')) = Absent
   \<and> handleGenerateResponse demo_runtime offline demo_prompt (settings_for ''anthropic'') demo_payload
       = (Unhandled (TypeError_read JUndefined (js ''requiresKey'')), [])
   \<and> gate (settings_for ''pollinations'') = None
   \<and> fst (handleGenerateResponse demo_runtime offline demo_prompt (settings_for ''pollinations'')
            demo_payload)
       = Responded (ReplyError (js ''Network Error: Failed to fetch''))"
proof -
  have a: "obj_lookup PROVIDERS_CONFIG (provider_of (settings_for ''anthropic'')) = Absent"
    by (simp add: cfg_ev settings_for_def)
  have g: "gate (settings_for ''pollinations'') = None"
    by (simp add: gate_def cfg_ev settings_for_def)
  have k: "obj_lookup PROVIDERS_CONFIG (provider_of (settings_for ''pollinations'')) \<noteq> Absent"
    by (simp add: cfg_ev settings_for_def)
  have off: "\<forall>req. \<not> is_rag req \<longrightarrow> offline req = Inl (Rejected (js ''Failed to fetch''))"
    by (simp add: offline_def)
  have m: "js ''Network Error: '' @ message (Rejected (js ''Failed to fetch''))
             = js ''Network Error: Failed to fetch''"
    by (simp add: js_def)
  have run: "fst (handleGenerateResponse demo_runtime offline demo_prompt
                    (settings_for ''pollinations'') demo_payload)
               = Responded (ReplyError (js ''Network Error: Failed to fetch''))"
    by (simp add: pipe_ev cfg_ev settings_for_def demo_payload_def demo_prompt_def offline_def
        js_def)
  show ?thesis
    using C3_outcomes [of "settings_for ''anthropic''" demo_runtime offline demo_prompt demo_payload]
      C3_outcomes [of "settings_for ''pollinations''" demo_runtime offline demo_prompt demo_payload
        "Rejected (js ''Failed to fetch'')"]
      a g k off m run
    by simp
qed

text \<open>
  C4. When the selected provider has a configuration that requires a key and no key is
  stored for it, the handler replies with the missing-key error naming the provider and
  makes no outbound call at all: neither the retrieval search nor a backend request.
\<close>

theorem C4_missing_credential:
  assumes "obj_lookup PROVIDERS_CONFIG (provider_of st) = Own cfg" "pc_requiresKey cfg"
    "no_key (apiKey_of st)"
  shows "handleGenerateResponse rt w tpl st pl
           = (Responded (ReplyError (js ''No API Key found for '' @ pc_name cfg
                                       @ js ''. Please open extension settings.'')), [])"
  by (rule handle_gated) (simp add: gate_def assms)

text \<open>C4 at the provider \<^verbatim>\<open>gemini\<close> with no stored keys, in a world whose retrieval
  service would answer.\<close>

theorem C4_missing_credential_witness:
  "obj_lookup PROVIDERS_CONFIG (provider_of (settings_for ''gemini''))
     = Own \<lparr>pc_name = js ''Google Gemini'', pc_defaultModel = Some (js ''models/gemini-2.5-flash''),
             pc_requiresKey = True\<rparr>
   \<and> no_key (apiKey_of (settings_for ''gemini''))
   \<and> handleGenerateResponse demo_runtime (search_world five_snippets) demo_prompt
        (settings_for ''gemini'') demo_payload
       = (Responded (ReplyError
            (js ''No API Key found for Google Gemini. Please open extension settings.'')), [])"
proof -
  let ?cfg = "\<lparr>pc_name = js ''Google Gemini'', pc_defaultModel = Some (js ''models/gemini-2.5-flash''),
             pc_requiresKey = True\<rparr>"
  have a: "obj_lookup PROVIDERS_CONFIG (provider_of (settings_for ''gemini'')) = Own ?cfg"
    by (simp add: cfg_ev settings_for_def)
  have r: "pc_requiresKey ?cfg" by simp
  have n: "no_key (apiKey_of (settings_for ''gemini''))"
    by (simp add: cfg_ev settings_for_def)
  have m: "js ''No API Key found for '' @ pc_name ?cfg @ js ''. Please open extension settings.''
             = js ''No API Key found for Google Gemini. Please open extension settings.''"
    by (simp add: js_def)
  show ?thesis
    using C4_missing_credential [OF a r n, of demo_runtime "search_world five_snippets" demo_prompt
        demo_payload] a n m
    by simp
qed

text \<open>
  C5 (the limit of three is asked of the service, not applied to its reply). When the
  search for the query succeeds with a JSON body whose
  \<^verbatim>\<open>results\<close> are well-formed snippets, \<open>getRagContext\<close> sends one request, with limit 3,
  and returns all the snippets with similarity at least 0.5, in the order received, each
  as \<^verbatim>\<open>[title]: content\<close>, joined by a blank line. The reply is not truncated: the block
  is the spec's (at most three snippets) whenever the service returns at most three.
\<close>

theorem C5_kb_block:
  assumes "w (RagSearch query 3) = Inr response" "ok response"
    "body_json response = Inr (JObj kvs)"
    "map_of kvs (js ''results'') = Some (JArr (map snippet_json rs))"
  shows "getRagContext rt w query []
           = (join [10, 10] (map format_snippet (filter (\<lambda>s. 1 / 2 \<le> sn_similarity s) rs)),
              [RagSearch query 3])
         \<and> (length rs \<le> 3 \<longrightarrow> fst (getRagContext rt w query []) = kb_block_spec rs)"
proof -
  have "length (filter P rs) \<le> 3" if "length rs \<le> 3" for P :: "snippet \<Rightarrow> bool"
    by (rule order_trans [OF length_filter_le that])
  then have "length rs \<le> 3 \<Longrightarrow> take 3 (filter (\<lambda>s. 1 / 2 \<le> sn_similarity s) rs)
          = filter (\<lambda>s. 1 / 2 \<le> sn_similarity s) rs"
    by simp
  then show ?thesis
    using assms relevantChunks_snippets [OF assms(4), of rt]
    by (simp add: getRagContext_def RAG_ENABLED_def RAG_TOP_K_def fetch_def andThen_simps
        kb_block_spec_def)
qed

text \<open>C5 at three snippets of similarity 0.49, 0.50 and 0.80: the first is left out, the
  second is kept.\<close>

theorem C5_kb_block_witness:
  "search_world three_snippets (RagSearch (js ''What is a GDG?'') 3)
     = Inr (json_response (JObj [(js ''results'', JArr (map snippet_json three_snippets))]))
   \<and> ok (json_response (JObj [(js ''results'', JArr (map snippet_json three_snippets))]))
   \<and> getRagContext demo_runtime (search_world three_snippets) (js ''What is a GDG?'') []
       = (js ''[c]: three'' @ [10, 10] @ js ''[d]: four'', [RagSearch (js ''What is a GDG?'') 3])
   \<and> kb_block_spec three_snippets = js ''[c]: three'' @ [10, 10] @ js ''[d]: four''"
proof -
  let ?data = "JObj [(js ''results'', JArr (map snippet_json three_snippets))]"
  have a: "search_world three_snippets (RagSearch (js ''What is a GDG?'') 3) = Inr (json_response ?data)"
    by (simp add: search_world_def)
  have b: "ok (json_response ?data)" "body_json (json_response ?data) = Inr ?data"
    by (simp_all add: json_response_def)
  have c: "map_of [(js ''results'', JArr (map snippet_json three_snippets))] (js ''results'')
             = Some (JArr (map snippet_json three_snippets))"
    by simp
  have l: "length three_snippets \<le> 3" by (simp add: three_snippets_def)
  have f: "join [10, 10] (map format_snippet (filter (\<lambda>s. 1 / 2 \<le> sn_similarity s) three_snippets))
             = js ''[c]: three'' @ [10, 10] @ js ''[d]: four''"
    by (simp add: three_snippets_def format_snippet_def js_def)
  show ?thesis
    using C5_kb_block [where w = "search_world three_snippets" and query = "js ''What is a GDG?''"
        and response = "json_response ?data"
        and kvs = "[(js ''results'', JArr (map snippet_json three_snippets))]"
        and rs = three_snippets and rt = demo_runtime] a b c l f
    by auto
qed

text \<open>The claim as stated fails when the service returns more than three snippets at or
  above the threshold: of five snippets, four reach 0.5 and all four are kept, where the
  spec's block has three.\<close>

theorem C5_kb_block_counterexample:
  "fst (getRagContext demo_runtime (search_world five_snippets) (js ''What is a GDG?'') [])
     = js ''[a]: one'' @ [10, 10] @ js ''[c]: three'' @ [10, 10] @ js ''[d]: four''
         @ [10, 10] @ js ''[e]: five''
   \<and> kb_block_spec five_snippets
     = js ''[a]: one'' @ [10, 10] @ js ''[c]: three'' @ [10, 10] @ js ''[d]: four''
   \<and> fst (getRagContext demo_runtime (search_world five_snippets) (js ''What is a GDG?'') [])
     \<noteq> kb_block_spec five_snippets"
  by (simp add: pipe_ev search_world_def json_response_def kb_block_spec_def five_snippets_def
      snippet_json_def format_snippet_def js_def)

text \<open>
  C6. With RAG enabled, when retrieval fails (the \<^verbatim>\<open>fetch\<close> rejects, the status is not ok,
  the body is not JSON, or the reply is malformed), \<open>getRagContext\<close> returns the empty
  context after its one request, and the handler ends exactly as it does with RAG
  disabled: the same outcome, and the same backend request after the retrieval request.
\<close>

theorem C6_retrieval_failure:
  assumes "rag_fails rt w (recentCaptions pl)" "st_ragEnabled st \<noteq> Some False"
  shows "getRagContext rt w (recentCaptions pl) [] = ([], [RagSearch (recentCaptions pl) 3])
         \<and> fst (handleGenerateResponse rt w tpl st pl)
             = fst (handleGenerateResponse rt w tpl (st\<lparr>st_ragEnabled := Some False\<rparr>) pl)
         \<and> filter (\<lambda>req. \<not> is_rag req) (snd (handleGenerateResponse rt w tpl st pl))
             = snd (handleGenerateResponse rt w tpl (st\<lparr>st_ragEnabled := Some False\<rparr>) pl)"
proof -
  let ?st' = "st\<lparr>st_ragEnabled := Some False\<rparr>"
  have p: "provider_of ?st' = provider_of st"
    by (simp add: provider_of_def)
  have same: "provider_of ?st' = provider_of st" "apiKey_of ?st' = apiKey_of st"
    "model_of ?st' = model_of st"
    by (simp_all add: p apiKey_of_def model_of_def split: lookup.splits)
  have gs: "gate ?st' = gate st" unfolding gate_def same ..
  have ctx: "getRagContext rt w (recentCaptions pl) [] = ([], [RagSearch (recentCaptions pl) 3])"
    using getRagContext_fails [OF assms(1), of "[]"] by simp
  show ?thesis
  proof (cases "gate st")
    case None
    then have n': "gate ?st' = None" using gs by simp
    show ?thesis
      unfolding handle_open [OF None] handle_open [OF n'] Let_def
      using assms(2) by (simp add: ctx same is_rag_RagSearch backend_calls_not_rag)
  next
    case (Some out)
    then have s': "gate ?st' = Some out" using gs by simp
    show ?thesis
      unfolding handle_gated [OF Some] handle_gated [OF s'] by (simp add: ctx)
  qed
qed

text \<open>C6 in a world whose retrieval service answers 500 and whose Pollinations backend
  answers: the reply is the backend's text, with and without RAG.\<close>

theorem C6_retrieval_failure_witness:
  "rag_fails demo_runtime rag_down (recentCaptions demo_payload)
   \<and> st_ragEnabled (settings_for ''pollinations'') \<noteq> Some False
   \<and> getRagContext demo_runtime rag_down (recentCaptions demo_payload) []
       = ([], [RagSearch (js ''What is your biggest weakness?'') 3])
   \<and> handleGenerateResponse demo_runtime rag_down demo_prompt (settings_for ''pollinations'')
        demo_payload
       = (Responded (ReplyText (JStr (js ''Be honest.'')) False),
          [RagSearch (js ''What is your biggest weakness?'') 3,
           PollinationsGet
             (js ''You are a coach. Q: What is your biggest weakness? Answer now.'')
             (js ''openai'')])
   \<and> handleGenerateResponse demo_runtime rag_down demo_prompt
        ((settings_for ''pollinations'')\<lparr>st_ragEnabled := Some False\<rparr>) demo_payload
       = (Responded (ReplyText (JStr (js ''Be honest.'')) False),
          [PollinationsGet
             (js ''You are a coach. Q: What is your biggest weakness? Answer now.'')
             (js ''openai'')])"
proof -
  have f: "rag_fails demo_runtime rag_down (recentCaptions demo_payload)"
    by (simp add: rag_fails_def rag_down_def RAG_TOP_K_def)
  have e: "st_ragEnabled (settings_for ''pollinations'') \<noteq> Some False"
    by (simp add: settings_for_def)
  have off: "handleGenerateResponse demo_runtime rag_down demo_prompt
        ((settings_for ''pollinations'')\<lparr>st_ragEnabled := Some False\<rparr>) demo_payload
       = (Responded (ReplyText (JStr (js ''Be honest.'')) False),
          [PollinationsGet
             (js ''You are a coach. Q: What is your biggest weakness? Answer now.'')
             (js ''openai'')])"
    by (simp add: pipe_ev cfg_ev settings_for_def demo_payload_def demo_prompt_def rag_down_def
        js_def)
  have on: "snd (handleGenerateResponse demo_runtime rag_down demo_prompt (settings_for ''pollinations'')
        demo_payload)
       = [RagSearch (js ''What is your biggest weakness?'') 3,
           PollinationsGet
             (js ''You are a coach. Q: What is your biggest weakness? Answer now.'')
             (js ''openai'')]"
    by (simp add: pipe_ev cfg_ev settings_for_def demo_payload_def demo_prompt_def rag_down_def
        js_def)
  have q: "recentCaptions demo_payload = js ''What is your biggest weakness?''"
    by (simp add: demo_payload_def)
  show ?thesis
    using C6_retrieval_failure [OF f e, of demo_prompt] f e off on q
    by (simp add: prod_eq_iff)
qed

text \<open>
  C7. \<open>getRecentCaptions\<close> returns the spec's window for the threshold 90000 (the only
  one the code has): the newline-joined texts, in buffer order, of exactly the entries
  with \<open>now - time < 90000\<close>. It leaves the buffer as it was, and an entry whose age is
  exactly 90000 contributes nothing.
\<close>

theorem C7_recent_window:
  "fst (getRecentCaptions now buffer) = recentWindow_spec 90000 now buffer
   \<and> snd (getRecentCaptions now buffer) = buffer
   \<and> (now - e_time e = 90000 \<longrightarrow> fst (getRecentCaptions now (pre @ [e])) = fst (getRecentCaptions now pre))"
  by (simp add: getRecentCaptions_def recentWindow_spec_def)

text \<open>C7 at a buffer with entries of age 90001, 89999, -7 and 90000.\<close>

theorem C7_recent_window_witness:
  "100000 - e_time \<lparr>e_text = js ''edge'', e_time = 10000\<rparr> = 90000
   \<and> fst (getRecentCaptions 100000
        [\<lparr>e_text = js ''old'', e_time = 9999\<rparr>, \<lparr>e_text = js ''new'', e_time = 10001\<rparr>,
         \<lparr>e_text = js ''ahead'', e_time = 100007\<rparr>, \<lparr>e_text = js ''edge'', e_time = 10000\<rparr>])
       = js ''new'' @ [10] @ js ''ahead''
   \<and> snd (getRecentCaptions 100000
        [\<lparr>e_text = js ''old'', e_time = 9999\<rparr>, \<lparr>e_text = js ''new'', e_time = 10001\<rparr>,
         \<lparr>e_text = js ''ahead'', e_time = 100007\<rparr>, \<lparr>e_text = js ''edge'', e_time = 10000\<rparr>])
       = [\<lparr>e_text = js ''old'', e_time = 9999\<rparr>, \<lparr>e_text = js ''new'', e_time = 10001\<rparr>,
         \<lparr>e_text = js ''ahead'', e_time = 100007\<rparr>, \<lparr>e_text = js ''edge'', e_time = 10000\<rparr>]"
  using C7_recent_window [of 100000
      "[\<lparr>e_text = js ''old'', e_time = 9999\<rparr>, \<lparr>e_text = js ''new'', e_time = 10001\<rparr>,
         \<lparr>e_text = js ''ahead'', e_time = 100007\<rparr>, \<lparr>e_text = js ''edge'', e_time = 10000\<rparr>]"
      "\<lparr>e_text = js ''edge'', e_time = 10000\<rparr>"
      "[\<lparr>e_text = js ''old'', e_time = 9999\<rparr>, \<lparr>e_text = js ''new'', e_time = 10001\<rparr>,
         \<lparr>e_text = js ''ahead'', e_time = 100007\<rparr>]"]
  by (simp add: recentWindow_spec_def)

text \<open>
  C8. In every buffer reached from the empty one by ingestion, no two adjacent entries
  have the same text.
\<close>

theorem C8_no_adjacent_duplicates:
  "distinct_adj (map e_text (ingest events []))"
  by (rule fresh_distinct_adj, rule fresh_ingest) (simp add: fresh_def)

text \<open>C8 at a run with an extension, a stale part and a repeated utterance.\<close>

theorem C8_no_adjacent_duplicates_witness:
  "distinct_adj (map e_text (ingest
      [(1, Some (js ''Tell me about'')), (2, Some (js ''Tell me about yourself'')),
       (3, Some (js ''Tell me'')), (4, Some (js ''Next question'')),
       (5, Some (js ''Next question''))] []))
   \<and> map e_text (ingest
      [(1, Some (js ''Tell me about'')), (2, Some (js ''Tell me about yourself'')),
       (3, Some (js ''Tell me'')), (4, Some (js ''Next question'')),
       (5, Some (js ''Next question''))] [])
     = [js ''Tell me about yourself'', js ''Next question'']"
  using C8_no_adjacent_duplicates [of "[(1, Some (js ''Tell me about'')), (2, Some (js ''Tell me about yourself'')),
       (3, Some (js ''Tell me'')), (4, Some (js ''Next question'')),
       (5, Some (js ''Next question''))]"]
  by (simp add: ev)

text \<open>
  C9. A fragment whose trimmed form has fewer than two code units, or matches one of the
  UI-noise patterns of \<open>isUIText\<close>, leaves the buffer exactly as it was.
\<close>

theorem C9_noise_leaves_buffer:
  "length (trim raw) < 2 \<or> isUIText (trim raw) \<Longrightarrow> processText now (Some raw) buffer = buffer"
  by (rule processText_rejected)

text \<open>C9 at one fragment of each kind of noise.\<close>

theorem C9_noise_leaves_buffer_witness:
  "isUIText (trim (js ''10:45'')) \<and> processText 5 (Some (js ''10:45'')) [\<lparr>e_text = js ''Hello'', e_time = 1\<rparr>] = [\<lparr>e_text = js ''Hello'', e_time = 1\<rparr>]
   \<and> isUIText (trim (js ''Mute'')) \<and> processText 5 (Some (js ''Mute'')) [\<lparr>e_text = js ''Hello'', e_time = 1\<rparr>] = [\<lparr>e_text = js ''Hello'', e_time = 1\<rparr>]
   \<and> isUIText (trim (js ''...'')) \<and> processText 5 (Some (js ''...'')) [\<lparr>e_text = js ''Hello'', e_time = 1\<rparr>] = [\<lparr>e_text = js ''Hello'', e_time = 1\<rparr>]
   \<and> length (trim (js '' H '')) < 2 \<and> processText 5 (Some (js '' H '')) [\<lparr>e_text = js ''Hello'', e_time = 1\<rparr>] = [\<lparr>e_text = js ''Hello'', e_time = 1\<rparr>]
   \<and> isUIText (trim (js ''pm'')) \<and> processText 5 (Some (js ''pm'')) [] = []
   \<and> isUIText (trim (js ''Yesterday'')) \<and> processText 5 (Some (js ''Yesterday'')) [] = []
   \<and> isUIText (trim (js ''Turn off captions'')) \<and> processText 5 (Some (js ''Turn off captions'')) [] = []
   \<and> isUIText (trim (js ''JK'')) \<and> processText 5 (Some (js ''JK'')) [] = []
   \<and> isUIText (trim (js ''Live captions are on'')) \<and> processText 5 (Some (js ''Live captions are on'')) [] = []"
proof -
  let ?b = "[\<lparr>e_text = js ''Hello'', e_time = 1\<rparr>]"
  have h: "isUIText (trim (js ''10:45''))" "isUIText (trim (js ''Mute''))" "isUIText (trim (js ''...''))"
    "length (trim (js '' H '')) < 2" "isUIText (trim (js ''pm''))" "isUIText (trim (js ''Yesterday''))"
    "isUIText (trim (js ''Turn off captions''))" "isUIText (trim (js ''JK''))"
    "isUIText (trim (js ''Live captions are on''))"
    by (simp_all add: ev)
  show ?thesis
    using h C9_noise_leaves_buffer [of "js ''10:45''" 5 ?b] C9_noise_leaves_buffer [of "js ''Mute''" 5 ?b]
      C9_noise_leaves_buffer [of "js ''...''" 5 ?b] C9_noise_leaves_buffer [of "js '' H ''" 5 ?b]
      C9_noise_leaves_buffer [of "js ''pm''" 5 "[]"] C9_noise_leaves_buffer [of "js ''Yesterday''" 5 "[]"]
      C9_noise_leaves_buffer [of "js ''Turn off captions''" 5 "[]"] C9_noise_leaves_buffer [of "js ''JK''" 5 "[]"]
      C9_noise_leaves_buffer [of "js ''Live captions are on''" 5 "[]"]
    by blast
qed

text \<open>
  C10. In a buffer reached by ingestion, a fragment whose trimmed form equals the last
  entry's text takes the incremental-update branch: the text stays, the time becomes the
  current time, nothing is appended, and the buffer differs from the one before unless
  the time was already the current one. A read within 90 seconds of the repetition
  therefore still ends with that text.
\<close>

theorem C10_duplicate_refreshes_time:
  assumes "buffer = ingest events []" "buffer \<noteq> []" "trim raw = e_text (last buffer)"
  shows "processText now (Some raw) buffer
           = butlast buffer @ [\<lparr>e_text = e_text (last buffer), e_time = now\<rparr>]
         \<and> (e_time (last buffer) \<noteq> now \<longrightarrow> processText now (Some raw) buffer \<noteq> buffer)
         \<and> (later - now < 90000 \<longrightarrow>
              suffix (e_text (last buffer))
                (fst (getRecentCaptions later (processText now (Some raw) buffer))))"
proof -
  have "\<forall>e\<in>set buffer. clean (e_text e)"
    unfolding assms(1) by (rule clean_ingest) simp
  then have "clean (e_text (last buffer))" using assms(2) by simp
  then have a: "2 \<le> length (trim raw)" "\<not> isUIText (trim raw)"
    using assms(3) by (simp_all add: clean_def)
  have pt: "processText now (Some raw) buffer
           = butlast buffer @ [\<lparr>e_text = e_text (last buffer), e_time = now\<rparr>]"
    using processText_accepted [OF a, of now buffer] assms(2,3) by simp
  have neq: "processText now (Some raw) buffer \<noteq> buffer" if "e_time (last buffer) \<noteq> now"
  proof
    assume "processText now (Some raw) buffer = buffer"
    then have "last (butlast buffer @ [\<lparr>e_text = e_text (last buffer), e_time = now\<rparr>]) = last buffer"
      using pt by simp
    then show False using that by (metis entry.select_convs(2) last_snoc)
  qed
  have win: "suffix (e_text (last buffer))
                (fst (getRecentCaptions later (processText now (Some raw) buffer)))"
    if "later - now < 90000"
    unfolding pt getRecentCaptions_def using that join_snoc_suffix by simp
  show ?thesis using pt neq win by blast
qed

text \<open>C10 at an utterance ingested at time 1 and repeated at time 80000; read at
  time 160000, it is outside the window without the repetition and inside with it.\<close>

theorem C10_duplicate_refreshes_time_witness:
  "ingest [(1, Some (js ''Tell me about yourself''))] [] = [\<lparr>e_text = js ''Tell me about yourself'', e_time = 1\<rparr>]
   \<and> processText 80000 (Some (js ''Tell me about yourself'')) [\<lparr>e_text = js ''Tell me about yourself'', e_time = 1\<rparr>]
       = [\<lparr>e_text = js ''Tell me about yourself'', e_time = 80000\<rparr>]
   \<and> processText 80000 (Some (js ''Tell me about yourself'')) [\<lparr>e_text = js ''Tell me about yourself'', e_time = 1\<rparr>]
       \<noteq> [\<lparr>e_text = js ''Tell me about yourself'', e_time = 1\<rparr>]
   \<and> fst (getRecentCaptions 160000 [\<lparr>e_text = js ''Tell me about yourself'', e_time = 1\<rparr>]) = []
   \<and> suffix (js ''Tell me about yourself'')
        (fst (getRecentCaptions 160000
          (processText 80000 (Some (js ''Tell me about yourself'')) [\<lparr>e_text = js ''Tell me about yourself'', e_time = 1\<rparr>])))"
proof -
  let ?b = "[\<lparr>e_text = js ''Tell me about yourself'', e_time = 1\<rparr>]"
  have i: "ingest [(1, Some (js ''Tell me about yourself''))] [] = ?b"
    by (simp add: ev)
  have ne: "?b \<noteq> []" by simp
  have t: "trim (js ''Tell me about yourself'') = e_text (last ?b)"
    by (simp add: js_def trim_def isWhiteSpace_def)
  have old: "fst (getRecentCaptions 160000 ?b) = []"
    by (simp add: getRecentCaptions_def)
  show ?thesis
    using C10_duplicate_refreshes_time [OF i [symmetric] ne t, of 80000 160000] i old by auto
qed

end
